theory Spec2Isabelle
  imports Complex_Main "HOL-Library.AList"
begin

section \<open>Data model\<close>

text \<open>
  Go's \<^verbatim>\<open>[]byte\<close> and \<^verbatim>\<open>string\<close> are both byte sequences, and a HOL character is a
  byte, so both are character lists here and the conversions \<^verbatim>\<open>string(b)\<close> and
  \<^verbatim>\<open>[]byte(s)\<close> are the identity. A \<^verbatim>\<open>float64\<close> gauge value is only stored, never
  computed with, and is a real number here.
\<close>

type_synonym bytes = string
type_synonym float64 = real

text \<open>A Go \<^verbatim>\<open>error\<close> value, identified by its message.\<close>

datatype error = Error string

text \<open>
  A Go map that the code ranges over is an association list: the list order is the
  order in which the runtime happens to visit the entries, lookups are \<open>map_of\<close>, and an
  assignment \<^verbatim>\<open>m[k] = v\<close> is \<open>AList.update\<close>. Maps that are only looked up are partial
  functions.
\<close>

type_synonym ('k, 'v) gomap = "('k \<times> 'v) list"

text \<open>The fields of \<^verbatim>\<open>metav1.ObjectMeta\<close> that the checkers read.\<close>

record ObjectMeta =
  Name :: string
  Namespace :: string
  Labels :: "string \<rightharpoonup> string"
  Annotations :: "string \<rightharpoonup> string"

record Secret = ObjectMeta +
  Type :: string
  Data :: "(string, bytes) gomap"

record ConfigMap = ObjectMeta +
  TextData :: "(string, string) gomap"
  BinaryData :: "(string, bytes) gomap"

text \<open>
  The part of \<^verbatim>\<open>kubernetes.Interface\<close> the checkers call, as the answers the cluster
  gives during one tick: \<^verbatim>\<open>Secrets(ns).List\<close> and \<^verbatim>\<open>ConfigMaps(ns).List\<close> take the
  namespace and the label selector (\<^verbatim>\<open>metav1.ListOptions{}\<close> has the empty selector),
  \<^verbatim>\<open>Secrets(ns).Get\<close> the namespace and the name.
\<close>

record Client =
  SecretsList :: "string \<Rightarrow> string \<Rightarrow> error + Secret list"
  SecretsGet :: "string \<Rightarrow> string \<Rightarrow> error + Secret"
  ConfigMapsList :: "string \<Rightarrow> string \<Rightarrow> error + ConfigMap list"

text \<open>
  \<^verbatim>\<open>filepath.Match(pattern, name)\<close> of the Go standard library is a parameter: it
  answers with a boolean, or with an error for a malformed pattern (every error return of
  \<^verbatim>\<open>filepath.Match\<close> carries \<^verbatim>\<open>false\<close> as its boolean).
\<close>

type_synonym matcher = "string \<Rightarrow> string \<Rightarrow> error + bool"

text \<open>
  What a checker acts on during a tick: the state \<open>sink\<close> behind its exporter (the
  gauge families the exporter writes), the counter \<^verbatim>\<open>metrics.ErrorTotal\<close>, and
  \<open>calls\<close>, the log of the calls the checker has made on its exporter, oldest first.
\<close>

record ('s, 'c) world =
  sink :: 's
  ErrorTotal :: nat
  calls :: "'c list"

definition ErrorTotal_Inc :: "('s, 'c) world \<Rightarrow> ('s, 'c) world" where
  "ErrorTotal_Inc w = w\<lparr>ErrorTotal := ErrorTotal w + 1\<rparr>"

section \<open>Go standard library: \<^verbatim>\<open>path.Ext\<close> and \<^verbatim>\<open>strings.TrimSuffix\<close>\<close>

text \<open>
  \<^verbatim>\<open>path.Ext\<close> walks from the last byte towards the first, stops at a slash, and
  returns the suffix that starts at the first dot it meets. \<open>ExtScan\<close> is that walk over
  the reversed path, \<open>acc\<close> holding the bytes already passed.
\<close>

fun ExtScan :: "string \<Rightarrow> string \<Rightarrow> string" where
  "ExtScan [] acc = []"
| "ExtScan (c # cs) acc =
     (if c = CHR ''/'' then []
      else if c = CHR ''.'' then c # acc
      else ExtScan cs (c # acc))"

definition path_Ext :: "string \<Rightarrow> string" where
  "path_Ext p = ExtScan (rev p) []"

definition HasSuffix :: "string \<Rightarrow> string \<Rightarrow> bool" where
  "HasSuffix s suffix \<longleftrightarrow>
     length s \<ge> length suffix \<and> drop (length s - length suffix) s = suffix"

definition TrimSuffix :: "string \<Rightarrow> string \<Rightarrow> string" where
  "TrimSuffix s suffix =
     (if HasSuffix s suffix then take (length s - length suffix) s else s)"

section \<open>Code shared by the two checkers\<close>

text \<open>
  \<^verbatim>\<open>getPasswordFromSecret\<close> (periodicSecretChecker.go, lines 49 to 61). The result is the
  pair the Go function returns.
\<close>

definition getPasswordFromSecret ::
  "Client \<Rightarrow> string \<Rightarrow> string \<Rightarrow> string \<Rightarrow> string \<times> error option" where
  "getPasswordFromSecret client namespace secretName passwordKey =
     (case SecretsGet client namespace secretName of
        Inl err \<Rightarrow> ('''', Some err)
      | Inr secret \<Rightarrow>
          (case map_of (Data secret) passwordKey of
             None \<Rightarrow> ('''', Some (Error ''password not found in secret''))
           | Some password \<Rightarrow> (password, None)))"

text \<open>
  The loop over the annotation selectors (periodicSecretChecker.go, lines 136 to 142;
  the same text in periodicConfigMapChecker.go, lines 103 to 109): the value of
  \<^verbatim>\<open>matches\<close> when the loop ends.
\<close>

fun annotationLoop :: "string list \<Rightarrow> (string \<rightharpoonup> string) \<Rightarrow> bool" where
  "annotationLoop [] annotations = False"
| "annotationLoop (selector # selectors) annotations =
     (case annotations selector of
        Some _ \<Rightarrow> True
      | None \<Rightarrow> annotationLoop selectors annotations)"

text \<open>
  The annotation filter (lines 133 to 147, and 100 to 114): \<open>True\<close> when the resource
  goes on to have its data entries visited, \<open>False\<close> when the loop over resources
  continues with the next one.
\<close>

definition annotationFilter :: "string list \<Rightarrow> (string \<rightharpoonup> string) \<Rightarrow> bool" where
  "annotationFilter annotationSelectors annotations =
     (if length annotationSelectors > 0
      then annotationLoop annotationSelectors annotations
      else True)"

text \<open>
  One loop over a glob list (periodicSecretChecker.go, lines 153 to 164 and 166 to 177;
  periodicConfigMapChecker.go, lines 129 to 140 and 142 to 153). The flag is assigned the
  result of every call of \<^verbatim>\<open>filepath.Match\<close>; an error counts in
  \<^verbatim>\<open>metrics.ErrorTotal\<close> and the loop goes on, a match ends the loop.
\<close>

fun globLoop ::
  "matcher \<Rightarrow> string list \<Rightarrow> string \<Rightarrow> bool \<Rightarrow> ('s, 'c) world \<Rightarrow> bool \<times> ('s, 'c) world" where
  "globLoop Match [] name flag w = (flag, w)"
| "globLoop Match (glob # globs) name flag w =
     (case Match glob name of
        Inl err \<Rightarrow> globLoop Match globs name False (ErrorTotal_Inc w)
      | Inr matched \<Rightarrow>
          if matched then (True, w) else globLoop Match globs name False w)"

section \<open>The exporter\<close>

text \<open>
  Modelled from the spec: the metrics sink. Package \<^verbatim>\<open>metrics\<close> and the gauge vectors
  it declares are not among the sources; the spec describes the sink as a gauge-vector
  family with \<^verbatim>\<open>WithLabelValues(...).Set(value)\<close> and \<^verbatim>\<open>Reset()\<close>. A family is a map from
  the tuple of label values to the value of the gauge: \<open>Set\<close> stores the value at the
  tuple, \<open>Reset\<close> removes every series.
\<close>

type_synonym GaugeVec = "string list \<rightharpoonup> float64"

definition GaugeVec_Set :: "string list \<Rightarrow> float64 \<Rightarrow> GaugeVec \<Rightarrow> GaugeVec" where
  "GaugeVec_Set labelValues v g = g(labelValues \<mapsto> v)"

definition GaugeVec_Reset :: "GaugeVec \<Rightarrow> GaugeVec" where
  "GaugeVec_Reset g = Map.empty"

text \<open>The two families configMapExporter.go writes.\<close>

record metrics =
  ConfigMapExpirySeconds :: GaugeVec
  ConfigMapNotAfterTimestamp :: GaugeVec

text \<open>
  The element type of what \<^verbatim>\<open>secondsToExpiryFromCertAsBytes\<close> returns, with the fields
  \<^verbatim>\<open>ExportMetrics\<close> reads. The decoder itself is a parameter of the exporter: it takes
  the bytes and the password and answers with an error or the decoded certificates.
\<close>

record certMetric =
  durationUntilExpiry :: float64
  notAfter :: float64
  issuer :: string
  cn :: string

type_synonym decoder = "bytes \<Rightarrow> string \<Rightarrow> error + certMetric list"

text \<open>Go's \<^verbatim>\<open>labels["serviceline"]\<close>: the zero value for a key that is absent.\<close>

definition index_string :: "(string \<rightharpoonup> string) \<Rightarrow> string \<Rightarrow> string" where
  "index_string m k = (case m k of None \<Rightarrow> [] | Some v \<Rightarrow> v)"

text \<open>The body of the loop of \<^verbatim>\<open>ExportMetrics\<close> (configMapExporter.go, lines 21 and 22).\<close>

definition setMetric ::
  "string \<Rightarrow> string \<Rightarrow> string \<Rightarrow> string \<Rightarrow> certMetric \<Rightarrow> metrics \<Rightarrow> metrics" where
  "setMetric keyName configMapName configMapNamespace serviceline metric m =
     m\<lparr>ConfigMapExpirySeconds :=
         GaugeVec_Set [keyName, issuer metric, cn metric, configMapName, configMapNamespace, serviceline]
           (durationUntilExpiry metric) (ConfigMapExpirySeconds m),
       ConfigMapNotAfterTimestamp :=
         GaugeVec_Set [keyName, issuer metric, cn metric, configMapName, configMapNamespace, serviceline]
           (notAfter metric) (ConfigMapNotAfterTimestamp m)\<rparr>"

text \<open>
  \<^verbatim>\<open>ConfigMapExporter.ExportMetrics\<close> (configMapExporter.go, lines 12 to 26): the error
  it returns (\<open>None\<close> for \<^verbatim>\<open>nil\<close>) and the families afterwards.
\<close>

definition ConfigMapExporter_ExportMetrics ::
  "decoder \<Rightarrow> bytes \<Rightarrow> string \<Rightarrow> string \<Rightarrow> string \<Rightarrow> string \<Rightarrow> (string \<rightharpoonup> string) \<Rightarrow>
   metrics \<Rightarrow> error option \<times> metrics" where
  "ConfigMapExporter_ExportMetrics secondsToExpiryFromCertAsBytes
       bytes keyName configMapName configMapNamespace password labels m =
     (case secondsToExpiryFromCertAsBytes bytes password of
        Inl err \<Rightarrow> (Some err, m)
      | Inr metricCollection \<Rightarrow>
          (let serviceline = index_string labels ''serviceline''
           in (None,
               fold (setMetric keyName configMapName configMapNamespace serviceline)
                 metricCollection m)))"

text \<open>\<^verbatim>\<open>ConfigMapExporter.ResetMetrics\<close> (configMapExporter.go, lines 28 to 31).\<close>

definition ConfigMapExporter_ResetMetrics :: "metrics \<Rightarrow> metrics" where
  "ConfigMapExporter_ResetMetrics m =
     m\<lparr>ConfigMapExpirySeconds := GaugeVec_Reset (ConfigMapExpirySeconds m),
       ConfigMapNotAfterTimestamp := GaugeVec_Reset (ConfigMapNotAfterTimestamp m)\<rparr>"

section \<open>The Secret checker\<close>

text \<open>
  The exporter a Secret checker holds, as the two methods the checker calls on it, each
  acting on the state \<open>'s\<close> behind the exporter. \<^verbatim>\<open>ExportMetrics\<close> takes the six arguments
  of the call at line 204 of periodicSecretChecker.go.
\<close>

record 's SecretExporter =
  SecretExportMetrics ::
    "bytes \<Rightarrow> string \<Rightarrow> string \<Rightarrow> string \<Rightarrow> string \<Rightarrow> (string \<rightharpoonup> string) \<Rightarrow> 's \<Rightarrow> error option \<times> 's"
  SecretResetMetrics :: "'s \<Rightarrow> 's"

datatype secretCall =
  SecretReset
| SecretExport bytes string string string string "string \<rightharpoonup> string"

record 's PeriodicSecretChecker =
  labelSelectors :: "string list"
  annotationSelectors :: "string list"
  namespaces :: "string list"
  exporter :: "'s SecretExporter"
  includeSecretsDataGlobs :: "string list"
  excludeSecretsDataGlobs :: "string list"
  includeSecretsTypes :: "string list"

text \<open>
  Listing the candidates (periodicSecretChecker.go, lines 85 to 110): the inner loop over
  the label selectors of one namespace, then the loop over the namespaces. The pair is
  the slice \<^verbatim>\<open>secrets\<close> and the world.
\<close>

fun listSecretsSelectors ::
  "Client \<Rightarrow> string \<Rightarrow> string list \<Rightarrow> Secret list \<times> ('s, 'c) world \<Rightarrow> Secret list \<times> ('s, 'c) world" where
  "listSecretsSelectors client ns [] acc = acc"
| "listSecretsSelectors client ns (labelSelector # rest) (secrets, w) =
     (case SecretsList client ns labelSelector of
        Inl err \<Rightarrow> listSecretsSelectors client ns rest (secrets, ErrorTotal_Inc w)
      | Inr items \<Rightarrow> listSecretsSelectors client ns rest (secrets @ items, w))"

fun listSecrets ::
  "'s PeriodicSecretChecker \<Rightarrow> Client \<Rightarrow> string list \<Rightarrow> Secret list \<times> ('s, 'c) world \<Rightarrow>
   Secret list \<times> ('s, 'c) world" where
  "listSecrets p client [] acc = acc"
| "listSecrets p client (ns # rest) (secrets, w) =
     (if length (PeriodicSecretChecker.labelSelectors p) > 0
      then listSecrets p client rest
             (listSecretsSelectors client ns (PeriodicSecretChecker.labelSelectors p) (secrets, w))
      else (case SecretsList client ns [] of
              Inl err \<Rightarrow> listSecrets p client rest (secrets, ErrorTotal_Inc w)
            | Inr items \<Rightarrow> listSecrets p client rest (secrets @ items, w)))"

text \<open>
  The loop over \<^verbatim>\<open>includeSecretsTypes\<close> (lines 117 to 124): the value of \<^verbatim>\<open>include\<close>
  when it ends, and the type filter around it (lines 115 to 129), \<open>True\<close> when the secret
  is reviewed further.
\<close>

fun typeLoop :: "string list \<Rightarrow> string \<Rightarrow> bool \<Rightarrow> bool" where
  "typeLoop [] secretType include = include"
| "typeLoop (t # ts) secretType include =
     typeLoop ts secretType (if secretType = t then True else include)"

definition typeFilter :: "string list \<Rightarrow> string \<Rightarrow> bool" where
  "typeFilter includeTypes secretType =
     (if length includeTypes > 0 then typeLoop includeTypes secretType False else True)"

text \<open>
  The password of an entry that is published (lines 182 to 202): the value of
  \<^verbatim>\<open>password\<close> at the call of \<^verbatim>\<open>ExportMetrics\<close>. The errors of the lookups are only
  logged.
\<close>

definition secretPassword :: "Client \<Rightarrow> Secret \<Rightarrow> string \<Rightarrow> string" where
  "secretPassword client secret name =
     (let password = fst (getPasswordFromSecret client (Namespace secret) (Name secret) ''password'');
          passwordKey = TrimSuffix name (path_Ext name) @ ''.password'';
          password =
            (if password = []
             then fst (getPasswordFromSecret client (Namespace secret)
                         (Name secret @ ''-password'') passwordKey)
             else password);
          password =
            (if password = []
             then fst (getPasswordFromSecret client (Namespace secret)
                         (Name secret @ ''-password'') (name @ ''.password''))
             else password)
      in password)"

text \<open>One turn of the loop over \<^verbatim>\<open>secret.Data\<close> (lines 151 to 211).\<close>

definition secretDataEntry ::
  "'s PeriodicSecretChecker \<Rightarrow> matcher \<Rightarrow> Client \<Rightarrow> Secret \<Rightarrow> string \<times> bytes \<Rightarrow>
   ('s, secretCall) world \<Rightarrow> ('s, secretCall) world" where
  "secretDataEntry p Match client secret entry w =
     (let name = fst entry; bytes = snd entry;
          (include, w) = globLoop Match (includeSecretsDataGlobs p) name False w;
          (exclude, w) = globLoop Match (excludeSecretsDataGlobs p) name False w
      in if include \<and> \<not> exclude
         then (let password = secretPassword client secret name;
                   (err, s) = SecretExportMetrics (exporter p) bytes name (Name secret)
                                (Namespace secret) password (Labels secret) (sink w);
                   w = w\<lparr>sink := s,
                         calls := calls w @ [SecretExport bytes name (Name secret)
                                               (Namespace secret) password (Labels secret)]\<rparr>
               in (case err of Some _ \<Rightarrow> ErrorTotal_Inc w | None \<Rightarrow> w))
         else w)"

text \<open>One turn of the loop over \<^verbatim>\<open>secrets\<close> (lines 113 to 212).\<close>

definition secretStep ::
  "'s PeriodicSecretChecker \<Rightarrow> matcher \<Rightarrow> Client \<Rightarrow> Secret \<Rightarrow>
   ('s, secretCall) world \<Rightarrow> ('s, secretCall) world" where
  "secretStep p Match client secret w =
     (if \<not> typeFilter (includeSecretsTypes p) (Type secret) then w
      else if \<not> annotationFilter (PeriodicSecretChecker.annotationSelectors p) (Annotations secret) then w
      else fold (secretDataEntry p Match client secret) (Data secret) w)"

text \<open>
  One tick: the body of the endless loop of \<^verbatim>\<open>PeriodicSecretChecker.StartChecking\<close>
  (lines 81 to 213), up to the wait for the next period.
\<close>

definition secretTick ::
  "'s PeriodicSecretChecker \<Rightarrow> matcher \<Rightarrow> Client \<Rightarrow> ('s, secretCall) world \<Rightarrow> ('s, secretCall) world" where
  "secretTick p Match client w =
     (let w = w\<lparr>sink := SecretResetMetrics (exporter p) (sink w), calls := calls w @ [SecretReset]\<rparr>;
          (secrets, w) = listSecrets p client (PeriodicSecretChecker.namespaces p) ([], w)
      in fold (secretStep p Match client) secrets w)"

text \<open>
  The loop of \<^verbatim>\<open>StartChecking\<close> never ends; \<open>secretTicks\<close> is its first ticks, one for
  each element of the list, which gives the answers of the cluster during that tick.
\<close>

definition secretTicks ::
  "'s PeriodicSecretChecker \<Rightarrow> matcher \<Rightarrow> Client list \<Rightarrow> ('s, secretCall) world \<Rightarrow> ('s, secretCall) world" where
  "secretTicks p Match clients w = fold (secretTick p Match) clients w"

section \<open>The ConfigMap checker\<close>

text \<open>
  The exporter a ConfigMap checker holds. \<^verbatim>\<open>ExportMetrics\<close> takes the five arguments of
  the call at line 173 of periodicConfigMapChecker.go, which passes no labels.
\<close>

record 's ConfigMapExporter =
  ConfigMapExportMetrics ::
    "bytes \<Rightarrow> string \<Rightarrow> string \<Rightarrow> string \<Rightarrow> string \<Rightarrow> 's \<Rightarrow> error option \<times> 's"
  ConfigMapResetMetrics :: "'s \<Rightarrow> 's"

datatype configMapCall =
  ConfigMapReset
| ConfigMapExport bytes string string string string

record 's PeriodicConfigMapChecker =
  labelSelectors :: "string list"
  annotationSelectors :: "string list"
  namespaces :: "string list"
  exporter :: "'s ConfigMapExporter"
  includeConfigMapsDataGlobs :: "string list"
  excludeConfigMapsDataGlobs :: "string list"

text \<open>Listing the candidates (periodicConfigMapChecker.go, lines 69 to 94).\<close>

fun listConfigMapsSelectors ::
  "Client \<Rightarrow> string \<Rightarrow> string list \<Rightarrow> ConfigMap list \<times> ('s, 'c) world \<Rightarrow>
   ConfigMap list \<times> ('s, 'c) world" where
  "listConfigMapsSelectors client ns [] acc = acc"
| "listConfigMapsSelectors client ns (labelSelector # rest) (configMaps, w) =
     (case ConfigMapsList client ns labelSelector of
        Inl err \<Rightarrow> listConfigMapsSelectors client ns rest (configMaps, ErrorTotal_Inc w)
      | Inr items \<Rightarrow> listConfigMapsSelectors client ns rest (configMaps @ items, w))"

fun listConfigMaps ::
  "'s PeriodicConfigMapChecker \<Rightarrow> Client \<Rightarrow> string list \<Rightarrow> ConfigMap list \<times> ('s, 'c) world \<Rightarrow>
   ConfigMap list \<times> ('s, 'c) world" where
  "listConfigMaps p client [] acc = acc"
| "listConfigMaps p client (ns # rest) (configMaps, w) =
     (if length (PeriodicConfigMapChecker.labelSelectors p) > 0
      then listConfigMaps p client rest
             (listConfigMapsSelectors client ns (PeriodicConfigMapChecker.labelSelectors p)
                (configMaps, w))
      else (case ConfigMapsList client ns [] of
              Inl err \<Rightarrow> listConfigMaps p client rest (configMaps, ErrorTotal_Inc w)
            | Inr items \<Rightarrow> listConfigMaps p client rest (configMaps @ items, w)))"

text \<open>
  \<^verbatim>\<open>combinedMap\<close> (lines 117 to 124): the text entries are stored first, the binary
  entries after them.
\<close>

definition combinedMap :: "ConfigMap \<Rightarrow> (string, bytes) gomap" where
  "combinedMap configMap =
     fold (\<lambda>(key, value) m. AList.update key value m) (BinaryData configMap)
       (fold (\<lambda>(key, value) m. AList.update key value m) (TextData configMap) [])"

text \<open>
  The password of an entry that is published (lines 158 to 171): the value of
  \<^verbatim>\<open>password\<close> at the call of \<^verbatim>\<open>ExportMetrics\<close>.
\<close>

definition configMapPassword :: "Client \<Rightarrow> ConfigMap \<Rightarrow> string \<Rightarrow> string" where
  "configMapPassword client configMap name =
     (let passwordKey = TrimSuffix name (path_Ext name) @ ''.password'';
          password = fst (getPasswordFromSecret client (Namespace configMap)
                            (Name configMap @ ''-password'') passwordKey);
          password =
            (if password = []
             then fst (getPasswordFromSecret client (Namespace configMap)
                         (Name configMap @ ''-password'') (name @ ''.password''))
             else password)
      in password)"

text \<open>One turn of the loop over \<^verbatim>\<open>combinedMap\<close> (lines 127 to 180).\<close>

definition configMapDataEntry ::
  "'s PeriodicConfigMapChecker \<Rightarrow> matcher \<Rightarrow> Client \<Rightarrow> ConfigMap \<Rightarrow> string \<times> bytes \<Rightarrow>
   ('s, configMapCall) world \<Rightarrow> ('s, configMapCall) world" where
  "configMapDataEntry p Match client configMap entry w =
     (let name = fst entry; data = snd entry;
          (include, w) = globLoop Match (includeConfigMapsDataGlobs p) name False w;
          (exclude, w) = globLoop Match (excludeConfigMapsDataGlobs p) name False w
      in if include \<and> \<not> exclude
         then (let password = configMapPassword client configMap name;
                   (err, s) = ConfigMapExportMetrics (exporter p) data name (Name configMap)
                                (Namespace configMap) password (sink w);
                   w = w\<lparr>sink := s,
                         calls := calls w @ [ConfigMapExport data name (Name configMap)
                                               (Namespace configMap) password]\<rparr>
               in (case err of Some _ \<Rightarrow> ErrorTotal_Inc w | None \<Rightarrow> w))
         else w)"

text \<open>One turn of the loop over \<^verbatim>\<open>configMaps\<close> (lines 97 to 181).\<close>

definition configMapStep ::
  "'s PeriodicConfigMapChecker \<Rightarrow> matcher \<Rightarrow> Client \<Rightarrow> ConfigMap \<Rightarrow>
   ('s, configMapCall) world \<Rightarrow> ('s, configMapCall) world" where
  "configMapStep p Match client configMap w =
     (if \<not> annotationFilter (annotationSelectors p) (Annotations configMap) then w
      else fold (configMapDataEntry p Match client configMap) (combinedMap configMap) w)"

text \<open>
  One tick: the body of the endless loop of \<^verbatim>\<open>PeriodicConfigMapChecker.StartChecking\<close>
  (lines 65 to 182), up to the wait for the next period.
\<close>

definition configMapTick ::
  "'s PeriodicConfigMapChecker \<Rightarrow> matcher \<Rightarrow> Client \<Rightarrow>
   ('s, configMapCall) world \<Rightarrow> ('s, configMapCall) world" where
  "configMapTick p Match client w =
     (let w = w\<lparr>sink := ConfigMapResetMetrics (exporter p) (sink w),
                 calls := calls w @ [ConfigMapReset]\<rparr>;
          (configMaps, w) = listConfigMaps p client (namespaces p) ([], w)
      in fold (configMapStep p Match client) configMaps w)"

definition configMapTicks ::
  "'s PeriodicConfigMapChecker \<Rightarrow> matcher \<Rightarrow> Client list \<Rightarrow>
   ('s, configMapCall) world \<Rightarrow> ('s, configMapCall) world" where
  "configMapTicks p Match clients w = fold (configMapTick p Match) clients w"

section \<open>The behaviour the specification describes\<close>

text \<open>
  The definitions of this section follow the words of the specification, not the code;
  the properties below compare the code with them.
\<close>

text \<open>A name matches at least one pattern of a glob list.\<close>

definition spec_matchesAny :: "matcher \<Rightarrow> string list \<Rightarrow> string \<Rightarrow> bool" where
  "spec_matchesAny Match globs name \<longleftrightarrow> (\<exists>glob \<in> set globs. Match glob name = Inr True)"

text \<open>
  A data entry is published: its name matches at least one include pattern and no
  exclude pattern.
\<close>

definition spec_published :: "matcher \<Rightarrow> string list \<Rightarrow> string list \<Rightarrow> string \<Rightarrow> bool" where
  "spec_published Match includeGlobs excludeGlobs name \<longleftrightarrow>
     spec_matchesAny Match includeGlobs name \<and> \<not> spec_matchesAny Match excludeGlobs name"

text \<open>
  The number of malformed patterns a glob loop meets: those before the first pattern
  that matches.
\<close>

fun globErrors :: "matcher \<Rightarrow> string list \<Rightarrow> string \<Rightarrow> nat" where
  "globErrors Match [] name = 0"
| "globErrors Match (glob # globs) name =
     (case Match glob name of
        Inl err \<Rightarrow> Suc (globErrors Match globs name)
      | Inr matched \<Rightarrow> if matched then 0 else globErrors Match globs name)"

text \<open>
  The (namespace, label selector) combinations of a tick, in the order of the list
  calls: every namespace with every label selector, or with the empty selector when no
  label selector is configured.
\<close>

definition spec_combinations :: "string list \<Rightarrow> string list \<Rightarrow> (string \<times> string) list" where
  "spec_combinations nss sels =
     concat (map (\<lambda>ns. map (\<lambda>sel. (ns, sel)) (if sels = [] then [[]] else sels)) nss)"

text \<open>What a combination contributes to the candidates: nothing when its list call fails.\<close>

definition spec_items :: "(string \<Rightarrow> string \<Rightarrow> error + 'a list) \<Rightarrow> string \<times> string \<Rightarrow> 'a list" where
  "spec_items list combination =
     (case list (fst combination) (snd combination) of Inl err \<Rightarrow> [] | Inr items \<Rightarrow> items)"

definition spec_failed :: "(string \<Rightarrow> string \<Rightarrow> error + 'a list) \<Rightarrow> string \<times> string \<Rightarrow> bool" where
  "spec_failed list combination = isl (list (fst combination) (snd combination))"

definition secretCandidates :: "'s PeriodicSecretChecker \<Rightarrow> Client \<Rightarrow> Secret list" where
  "secretCandidates p client =
     concat (map (spec_items (SecretsList client))
               (spec_combinations (PeriodicSecretChecker.namespaces p)
                  (PeriodicSecretChecker.labelSelectors p)))"

definition configMapCandidates :: "'s PeriodicConfigMapChecker \<Rightarrow> Client \<Rightarrow> ConfigMap list" where
  "configMapCandidates p client =
     concat (map (spec_items (ConfigMapsList client))
               (spec_combinations (PeriodicConfigMapChecker.namespaces p)
                  (PeriodicConfigMapChecker.labelSelectors p)))"

text \<open>
  The calls on the exporter that one data entry, one resource and one tick give rise
  to: one \<^verbatim>\<open>ExportMetrics\<close> for every published entry of every candidate that passes the
  filters on resources, in the order of the candidates and of their entries.
\<close>

definition secretEntryCalls ::
  "'s PeriodicSecretChecker \<Rightarrow> matcher \<Rightarrow> Client \<Rightarrow> Secret \<Rightarrow> string \<times> bytes \<Rightarrow> secretCall list" where
  "secretEntryCalls p Match client secret entry =
     (if spec_published Match (includeSecretsDataGlobs p) (excludeSecretsDataGlobs p) (fst entry)
      then [SecretExport (snd entry) (fst entry) (Name secret) (Namespace secret)
              (secretPassword client secret (fst entry)) (Labels secret)]
      else [])"

definition secretCalls ::
  "'s PeriodicSecretChecker \<Rightarrow> matcher \<Rightarrow> Client \<Rightarrow> Secret \<Rightarrow> secretCall list" where
  "secretCalls p Match client secret =
     (if typeFilter (includeSecretsTypes p) (Type secret)
         \<and> annotationFilter (PeriodicSecretChecker.annotationSelectors p) (Annotations secret)
      then concat (map (secretEntryCalls p Match client secret) (Data secret))
      else [])"

definition configMapEntryCalls ::
  "'s PeriodicConfigMapChecker \<Rightarrow> matcher \<Rightarrow> Client \<Rightarrow> ConfigMap \<Rightarrow> string \<times> bytes \<Rightarrow>
   configMapCall list" where
  "configMapEntryCalls p Match client configMap entry =
     (if spec_published Match (includeConfigMapsDataGlobs p) (excludeConfigMapsDataGlobs p)
           (fst entry)
      then [ConfigMapExport (snd entry) (fst entry) (Name configMap) (Namespace configMap)
              (configMapPassword client configMap (fst entry))]
      else [])"

definition configMapCalls ::
  "'s PeriodicConfigMapChecker \<Rightarrow> matcher \<Rightarrow> Client \<Rightarrow> ConfigMap \<Rightarrow> configMapCall list" where
  "configMapCalls p Match client configMap =
     (if annotationFilter (PeriodicConfigMapChecker.annotationSelectors p) (Annotations configMap)
      then concat (map (configMapEntryCalls p Match client configMap) (combinedMap configMap))
      else [])"

text \<open>The effect of a logged call on the state behind the exporter.\<close>

definition applySecretCall :: "'s SecretExporter \<Rightarrow> secretCall \<Rightarrow> 's \<Rightarrow> 's" where
  "applySecretCall e c s =
     (case c of
        SecretReset \<Rightarrow> SecretResetMetrics e s
      | SecretExport bytes keyName secretName secretNamespace password labels \<Rightarrow>
          snd (SecretExportMetrics e bytes keyName secretName secretNamespace password labels s))"

definition applyConfigMapCall :: "'s ConfigMapExporter \<Rightarrow> configMapCall \<Rightarrow> 's \<Rightarrow> 's" where
  "applyConfigMapCall e c s =
     (case c of
        ConfigMapReset \<Rightarrow> ConfigMapResetMetrics e s
      | ConfigMapExport bytes keyName configMapName configMapNamespace password \<Rightarrow>
          snd (ConfigMapExportMetrics e bytes keyName configMapName configMapNamespace password s))"

text \<open>
  Password resolution: the first non-empty result of the stages, the empty string when
  there is none; a stage is a lookup of a key in a Secret fetched by namespace and name,
  and any failure of the lookup gives the empty string. The entry name without its
  extension is the name up to its last dot, when that dot comes after the last slash.
\<close>

fun spec_firstNonEmpty :: "string list \<Rightarrow> string" where
  "spec_firstNonEmpty [] = []"
| "spec_firstNonEmpty (x # xs) = (if x \<noteq> [] then x else spec_firstNonEmpty xs)"

definition spec_lookup :: "Client \<Rightarrow> string \<Rightarrow> string \<Rightarrow> string \<Rightarrow> string" where
  "spec_lookup client ns secretName key =
     (case SecretsGet client ns secretName of
        Inl err \<Rightarrow> []
      | Inr secret \<Rightarrow> (case map_of (Data secret) key of None \<Rightarrow> [] | Some v \<Rightarrow> v))"

definition spec_withoutExtension :: "string \<Rightarrow> string" where
  "spec_withoutExtension name =
     (case dropWhile (\<lambda>c. c \<noteq> CHR ''.'' \<and> c \<noteq> CHR ''/'') (rev name) of
        [] \<Rightarrow> name
      | c # rest \<Rightarrow> if c = CHR ''.'' then rev rest else name)"

text \<open>
  The families with no series, and the families of \<open>a\<close> overridden by the series of
  \<open>b\<close>.
\<close>

definition emptyMetrics :: metrics where
  "emptyMetrics = \<lparr>ConfigMapExpirySeconds = Map.empty, ConfigMapNotAfterTimestamp = Map.empty\<rparr>"

definition override :: "metrics \<Rightarrow> metrics \<Rightarrow> metrics" where
  "override a b =
     \<lparr>ConfigMapExpirySeconds = ConfigMapExpirySeconds a ++ ConfigMapExpirySeconds b,
      ConfigMapNotAfterTimestamp = ConfigMapNotAfterTimestamp a ++ ConfigMapNotAfterTimestamp b\<rparr>"

section \<open>A small cluster on which the checkers are run\<close>

text \<open>
  A matcher that knows one malformed pattern, the pattern \<^verbatim>\<open>*.crt\<close> and literal
  patterns; a decoder that finds one certificate in the bytes \<^verbatim>\<open>PEM\<close> and fails on all
  others; a Secret, its password Secret and a ConfigMap in namespace \<^verbatim>\<open>default\<close>; list
  calls that fail in every other namespace and for every label selector.
\<close>

definition exampleMatch :: matcher where
  "exampleMatch glob name =
     (if glob = ''['' then Inl (Error ''syntax error in pattern'')
      else if glob = ''*.crt'' then Inr (HasSuffix name ''.crt'')
      else Inr (glob = name))"

definition exampleDecoder :: decoder where
  "exampleDecoder bytes password =
     (if bytes = ''PEM''
      then Inr [\<lparr>durationUntilExpiry = 86400, notAfter = 1700000000,
                 issuer = ''ca'', cn = ''example.org''\<rparr>]
      else Inl (Error ''failed to parse as pem and pkcs12''))"

definition exampleSecret :: Secret where
  "exampleSecret =
     \<lparr>Name = ''tls-1'', Namespace = ''default'',
      Labels = [''serviceline'' \<mapsto> ''payments''], Annotations = Map.empty,
      Type = ''kubernetes.io/tls'',
      Data = [(''tls.crt'', ''PEM''), (''config.txt'', ''hello''), (''bad.crt'', ''junk'')]\<rparr>"

definition examplePasswordSecret :: Secret where
  "examplePasswordSecret =
     \<lparr>Name = ''tls-1-password'', Namespace = ''default'',
      Labels = Map.empty, Annotations = Map.empty,
      Type = ''Opaque'',
      Data = [(''tls.password'', ''s3cret''), (''tls.crt.password'', ''other''),
              (''bad.crt.password'', ''full'')]\<rparr>"

definition exampleConfigMap :: ConfigMap where
  "exampleConfigMap =
     \<lparr>Name = ''ca-bundle'', Namespace = ''default'',
      Labels = Map.empty, Annotations = Map.empty,
      TextData = [(''ca.crt'', ''text''), (''notes.txt'', ''hello'')],
      BinaryData = [(''ca.crt'', ''PEM'')]\<rparr>"

definition exampleClient :: Client where
  "exampleClient =
     \<lparr>SecretsList = (\<lambda>ns sel. if ns = ''default'' \<and> sel = [] then Inr [exampleSecret]
                             else Inl (Error ''forbidden'')),
      SecretsGet = (\<lambda>ns name. if ns = ''default'' \<and> name = ''tls-1'' then Inr exampleSecret
                               else if ns = ''default'' \<and> name = ''tls-1-password''
                               then Inr examplePasswordSecret
                               else Inl (Error ''not found'')),
      ConfigMapsList = (\<lambda>ns sel. if ns = ''default'' \<and> sel = [] then Inr [exampleConfigMap]
                                else Inl (Error ''forbidden''))\<rparr>"

text \<open>
  A Secret checker and a ConfigMap checker over the two namespaces \<^verbatim>\<open>default\<close> and
  \<^verbatim>\<open>other\<close>, both with the methods of configMapExporter.go behind them.
\<close>

definition exampleSecretChecker :: "metrics PeriodicSecretChecker" where
  "exampleSecretChecker =
     \<lparr>PeriodicSecretChecker.labelSelectors = [],
      PeriodicSecretChecker.annotationSelectors = [],
      PeriodicSecretChecker.namespaces = [''default'', ''other''],
      PeriodicSecretChecker.exporter =
        \<lparr>SecretExportMetrics = ConfigMapExporter_ExportMetrics exampleDecoder,
         SecretResetMetrics = ConfigMapExporter_ResetMetrics\<rparr>,
      includeSecretsDataGlobs = [''['', ''*.crt''],
      excludeSecretsDataGlobs = [],
      includeSecretsTypes = []\<rparr>"

definition exampleConfigMapChecker :: "metrics PeriodicConfigMapChecker" where
  "exampleConfigMapChecker =
     \<lparr>labelSelectors = [],
      annotationSelectors = [],
      namespaces = [''default'', ''other''],
      exporter =
        \<lparr>ConfigMapExportMetrics =
           (\<lambda>bytes keyName configMapName configMapNamespace password.
              ConfigMapExporter_ExportMetrics exampleDecoder bytes keyName configMapName
                configMapNamespace password Map.empty),
         ConfigMapResetMetrics = ConfigMapExporter_ResetMetrics\<rparr>,
      includeConfigMapsDataGlobs = [''['', ''*.crt''],
      excludeConfigMapsDataGlobs = []\<rparr>"

text \<open>A world that holds a series from an earlier tick.\<close>

definition exampleWorld :: "(metrics, 'c) world" where
  "exampleWorld =
     \<lparr>sink = \<lparr>ConfigMapExpirySeconds = [[''old''] \<mapsto> 1],
               ConfigMapNotAfterTimestamp = [[''old''] \<mapsto> 2]\<rparr>,
      ErrorTotal = 0, calls = []\<rparr>"

section \<open>Properties\<close>

lemma globLoop_eq:
  "globLoop Match globs name flag w =
     ((globs = [] \<and> flag) \<or> spec_matchesAny Match globs name,
      w\<lparr>ErrorTotal := ErrorTotal w + globErrors Match globs name\<rparr>)"
proof (induction globs arbitrary: flag w)
  case Nil
  show ?case by (simp add: spec_matchesAny_def)
next
  case (Cons g gs)
  show ?case
    by (cases "Match g name")
      (auto simp: Cons.IH ErrorTotal_Inc_def spec_matchesAny_def)
qed

lemma globLoop_False:
  "globLoop Match globs name False w =
     (spec_matchesAny Match globs name,
      w\<lparr>ErrorTotal := ErrorTotal w + globErrors Match globs name\<rparr>)"
  by (simp add: globLoop_eq)

lemma secretDataEntry_calls:
  "calls (secretDataEntry p Match client secret entry w) =
     calls w @ secretEntryCalls p Match client secret entry"
  by (simp add: secretDataEntry_def secretEntryCalls_def globLoop_False spec_published_def
      ErrorTotal_Inc_def Let_def split: prod.splits option.splits)

lemma secretDataEntry_sink:
  "sink (secretDataEntry p Match client secret entry w) =
     fold (applySecretCall (PeriodicSecretChecker.exporter p)) (secretEntryCalls p Match client secret entry) (sink w)"
  by (simp add: secretDataEntry_def secretEntryCalls_def globLoop_False spec_published_def
      applySecretCall_def ErrorTotal_Inc_def Let_def split: prod.splits option.splits)

lemma fold_secretDataEntry_calls:
  "calls (fold (secretDataEntry p Match client secret) entries w) =
     calls w @ concat (map (secretEntryCalls p Match client secret) entries)"
  by (induction entries arbitrary: w) (simp_all add: secretDataEntry_calls)

lemma fold_secretDataEntry_sink:
  "sink (fold (secretDataEntry p Match client secret) entries w) =
     fold (applySecretCall (PeriodicSecretChecker.exporter p))
       (concat (map (secretEntryCalls p Match client secret) entries)) (sink w)"
  by (induction entries arbitrary: w) (simp_all add: secretDataEntry_sink)

lemma secretStep_calls:
  "calls (secretStep p Match client secret w) = calls w @ secretCalls p Match client secret"
  by (simp add: secretStep_def secretCalls_def fold_secretDataEntry_calls)

lemma secretStep_sink:
  "sink (secretStep p Match client secret w) =
     fold (applySecretCall (PeriodicSecretChecker.exporter p)) (secretCalls p Match client secret) (sink w)"
  by (simp add: secretStep_def secretCalls_def fold_secretDataEntry_sink)

lemma fold_secretStep_calls:
  "calls (fold (secretStep p Match client) secrets w) =
     calls w @ concat (map (secretCalls p Match client) secrets)"
  by (induction secrets arbitrary: w) (simp_all add: secretStep_calls)

lemma fold_secretStep_sink:
  "sink (fold (secretStep p Match client) secrets w) =
     fold (applySecretCall (PeriodicSecretChecker.exporter p))
       (concat (map (secretCalls p Match client) secrets)) (sink w)"
  by (induction secrets arbitrary: w) (simp_all add: secretStep_sink)

lemma listSecretsSelectors_eq:
  "listSecretsSelectors client ns sels (secrets, w) =
     (secrets @ concat (map (\<lambda>sel. spec_items (SecretsList client) (ns, sel)) sels),
      w\<lparr>ErrorTotal := ErrorTotal w
           + length (filter (\<lambda>sel. spec_failed (SecretsList client) (ns, sel)) sels)\<rparr>)"
proof (induction sels arbitrary: secrets w)
  case Nil
  show ?case by simp
next
  case (Cons sel sels)
  show ?case
    by (cases "SecretsList client ns sel")
      (simp_all add: Cons.IH spec_items_def spec_failed_def ErrorTotal_Inc_def)
qed

lemma listSecrets_eq:
  "listSecrets p client nss (secrets, w) =
     (secrets @ concat (map (spec_items (SecretsList client))
                          (spec_combinations nss (PeriodicSecretChecker.labelSelectors p))),
      w\<lparr>ErrorTotal := ErrorTotal w
           + length (filter (spec_failed (SecretsList client))
                       (spec_combinations nss (PeriodicSecretChecker.labelSelectors p)))\<rparr>)"
proof (induction nss arbitrary: secrets w)
  case Nil
  show ?case by (simp add: spec_combinations_def)
next
  case (Cons ns nss)
  show ?case
  proof (cases "PeriodicSecretChecker.labelSelectors p = []")
    case True
    then show ?thesis
      by (cases "SecretsList client ns []")
        (simp_all add: Cons.IH spec_combinations_def spec_items_def spec_failed_def
          ErrorTotal_Inc_def)
  next
    case False
    then show ?thesis
      by (simp add: Cons.IH listSecretsSelectors_eq spec_combinations_def
          filter_map comp_def)
  qed
qed

lemma secretTick_calls:
  "calls (secretTick p Match client w) =
     calls w @ SecretReset # concat (map (secretCalls p Match client) (secretCandidates p client))"
  by (simp add: secretTick_def Let_def listSecrets_eq fold_secretStep_calls secretCandidates_def)

lemma secretTick_sink:
  "sink (secretTick p Match client w) =
     fold (applySecretCall (PeriodicSecretChecker.exporter p))
       (concat (map (secretCalls p Match client) (secretCandidates p client)))
       (SecretResetMetrics (PeriodicSecretChecker.exporter p) (sink w))"
  by (simp add: secretTick_def Let_def listSecrets_eq fold_secretStep_sink secretCandidates_def)

lemma configMapDataEntry_calls:
  "calls (configMapDataEntry p Match client configMap entry w) =
     calls w @ configMapEntryCalls p Match client configMap entry"
  by (simp add: configMapDataEntry_def configMapEntryCalls_def globLoop_False spec_published_def
      ErrorTotal_Inc_def Let_def split: prod.splits option.splits)

lemma configMapDataEntry_sink:
  "sink (configMapDataEntry p Match client configMap entry w) =
     fold (applyConfigMapCall (PeriodicConfigMapChecker.exporter p)) (configMapEntryCalls p Match client configMap entry) (sink w)"
  by (simp add: configMapDataEntry_def configMapEntryCalls_def globLoop_False spec_published_def
      applyConfigMapCall_def ErrorTotal_Inc_def Let_def split: prod.splits option.splits)

lemma fold_configMapDataEntry_calls:
  "calls (fold (configMapDataEntry p Match client configMap) entries w) =
     calls w @ concat (map (configMapEntryCalls p Match client configMap) entries)"
  by (induction entries arbitrary: w) (simp_all add: configMapDataEntry_calls)

lemma fold_configMapDataEntry_sink:
  "sink (fold (configMapDataEntry p Match client configMap) entries w) =
     fold (applyConfigMapCall (PeriodicConfigMapChecker.exporter p))
       (concat (map (configMapEntryCalls p Match client configMap) entries)) (sink w)"
  by (induction entries arbitrary: w) (simp_all add: configMapDataEntry_sink)

lemma configMapStep_calls:
  "calls (configMapStep p Match client configMap w) = calls w @ configMapCalls p Match client configMap"
  by (simp add: configMapStep_def configMapCalls_def fold_configMapDataEntry_calls)

lemma configMapStep_sink:
  "sink (configMapStep p Match client configMap w) =
     fold (applyConfigMapCall (PeriodicConfigMapChecker.exporter p)) (configMapCalls p Match client configMap) (sink w)"
  by (simp add: configMapStep_def configMapCalls_def fold_configMapDataEntry_sink)

lemma fold_configMapStep_calls:
  "calls (fold (configMapStep p Match client) configMaps w) =
     calls w @ concat (map (configMapCalls p Match client) configMaps)"
  by (induction configMaps arbitrary: w) (simp_all add: configMapStep_calls)

lemma fold_configMapStep_sink:
  "sink (fold (configMapStep p Match client) configMaps w) =
     fold (applyConfigMapCall (PeriodicConfigMapChecker.exporter p))
       (concat (map (configMapCalls p Match client) configMaps)) (sink w)"
  by (induction configMaps arbitrary: w) (simp_all add: configMapStep_sink)

lemma listConfigMapsSelectors_eq:
  "listConfigMapsSelectors client ns sels (configMaps, w) =
     (configMaps @ concat (map (\<lambda>sel. spec_items (ConfigMapsList client) (ns, sel)) sels),
      w\<lparr>ErrorTotal := ErrorTotal w
           + length (filter (\<lambda>sel. spec_failed (ConfigMapsList client) (ns, sel)) sels)\<rparr>)"
proof (induction sels arbitrary: configMaps w)
  case Nil
  show ?case by simp
next
  case (Cons sel sels)
  show ?case
    by (cases "ConfigMapsList client ns sel")
      (simp_all add: Cons.IH spec_items_def spec_failed_def ErrorTotal_Inc_def)
qed

lemma listConfigMaps_eq:
  "listConfigMaps p client nss (configMaps, w) =
     (configMaps @ concat (map (spec_items (ConfigMapsList client))
                          (spec_combinations nss (PeriodicConfigMapChecker.labelSelectors p))),
      w\<lparr>ErrorTotal := ErrorTotal w
           + length (filter (spec_failed (ConfigMapsList client))
                       (spec_combinations nss (PeriodicConfigMapChecker.labelSelectors p)))\<rparr>)"
proof (induction nss arbitrary: configMaps w)
  case Nil
  show ?case by (simp add: spec_combinations_def)
next
  case (Cons ns nss)
  show ?case
  proof (cases "PeriodicConfigMapChecker.labelSelectors p = []")
    case True
    then show ?thesis
      by (cases "ConfigMapsList client ns []")
        (simp_all add: Cons.IH spec_combinations_def spec_items_def spec_failed_def
          ErrorTotal_Inc_def)
  next
    case False
    then show ?thesis
      by (simp add: Cons.IH listConfigMapsSelectors_eq spec_combinations_def
          filter_map comp_def)
  qed
qed

lemma configMapTick_calls:
  "calls (configMapTick p Match client w) =
     calls w @ ConfigMapReset # concat (map (configMapCalls p Match client) (configMapCandidates p client))"
  by (simp add: configMapTick_def Let_def listConfigMaps_eq fold_configMapStep_calls configMapCandidates_def)

lemma configMapTick_sink:
  "sink (configMapTick p Match client w) =
     fold (applyConfigMapCall (PeriodicConfigMapChecker.exporter p))
       (concat (map (configMapCalls p Match client) (configMapCandidates p client)))
       (ConfigMapResetMetrics (PeriodicConfigMapChecker.exporter p) (sink w))"
  by (simp add: configMapTick_def Let_def listConfigMaps_eq fold_configMapStep_sink configMapCandidates_def)

lemmas example_defs =
  exampleMatch_def exampleDecoder_def exampleSecret_def examplePasswordSecret_def
  exampleConfigMap_def exampleClient_def exampleSecretChecker_def exampleConfigMapChecker_def
  exampleWorld_def

lemmas checker_defs =
  secretTicks_def secretTick_def secretStep_def secretDataEntry_def secretPassword_def
  configMapTicks_def configMapTick_def configMapStep_def configMapDataEntry_def
  configMapPassword_def combinedMap_def getPasswordFromSecret_def typeFilter_def
  annotationFilter_def ErrorTotal_Inc_def HasSuffix_def TrimSuffix_def path_Ext_def
  ConfigMapExporter_ExportMetrics_def ConfigMapExporter_ResetMetrics_def setMetric_def
  GaugeVec_Set_def GaugeVec_Reset_def index_string_def Let_def

lemma secretCalls_no_reset: "SecretReset \<notin> set (secretCalls p Match client secret)"
  by (auto simp: secretCalls_def secretEntryCalls_def)

lemma configMapCalls_no_reset: "ConfigMapReset \<notin> set (configMapCalls p Match client configMap)"
  by (auto simp: configMapCalls_def configMapEntryCalls_def)

lemma ConfigMapExporter_ResetMetrics_empty:
  "ConfigMapExporter_ResetMetrics m =
     \<lparr>ConfigMapExpirySeconds = Map.empty, ConfigMapNotAfterTimestamp = Map.empty\<rparr>"
  by (simp add: ConfigMapExporter_ResetMetrics_def GaugeVec_Reset_def)

text \<open>
  C1. Take any run of a checker and any of its ticks, the one after the ticks for
  \<open>clients\<close>. The calls the tick makes on the exporter are one \<^verbatim>\<open>ResetMetrics\<close> followed
  by calls \<open>es\<close> that are all \<^verbatim>\<open>ExportMetrics\<close>, and the state behind the exporter after
  the tick is the result of those exports on the state \<^verbatim>\<open>ResetMetrics\<close> left. This holds
  for the Secret checker and for the ConfigMap checker, whatever exporter they hold. With
  the \<^verbatim>\<open>ResetMetrics\<close> of configMapExporter.go, which empties both families, the series
  after the tick are those of a single tick started from any other state: nothing from
  an earlier tick is left.
\<close>

theorem tick_resets_before_exports:
  fixes p :: "'s PeriodicSecretChecker" and q :: "'t PeriodicConfigMapChecker"
    and r :: "metrics PeriodicConfigMapChecker"
  shows
  "(\<exists>es. SecretReset \<notin> set es
      \<and> calls (secretTicks p Match (clients @ [client]) w) =
          calls (secretTicks p Match clients w) @ SecretReset # es
      \<and> sink (secretTicks p Match (clients @ [client]) w) =
          fold (applySecretCall (PeriodicSecretChecker.exporter p)) es
            (SecretResetMetrics (PeriodicSecretChecker.exporter p)
               (sink (secretTicks p Match clients w))))
   \<and> (\<exists>es. ConfigMapReset \<notin> set es
      \<and> calls (configMapTicks q Match (clients @ [client]) v) =
          calls (configMapTicks q Match clients v) @ ConfigMapReset # es
      \<and> sink (configMapTicks q Match (clients @ [client]) v) =
          fold (applyConfigMapCall (exporter q)) es
            (ConfigMapResetMetrics (exporter q) (sink (configMapTicks q Match clients v))))
   \<and> (ConfigMapResetMetrics (exporter r) = ConfigMapExporter_ResetMetrics \<longrightarrow>
        sink (configMapTicks r Match (clients @ [client]) u) =
        sink (configMapTick r Match client u'))"
proof (intro conjI impI)
  let ?es = "concat (map (secretCalls p Match client) (secretCandidates p client))"
  have "SecretReset \<notin> set ?es"
    using secretCalls_no_reset by auto
  then show "\<exists>es. SecretReset \<notin> set es
      \<and> calls (secretTicks p Match (clients @ [client]) w) =
          calls (secretTicks p Match clients w) @ SecretReset # es
      \<and> sink (secretTicks p Match (clients @ [client]) w) =
          fold (applySecretCall (PeriodicSecretChecker.exporter p)) es
            (SecretResetMetrics (PeriodicSecretChecker.exporter p)
               (sink (secretTicks p Match clients w)))"
    by (intro exI [of _ ?es]) (simp add: secretTicks_def secretTick_calls secretTick_sink)
next
  let ?es = "concat (map (configMapCalls q Match client) (configMapCandidates q client))"
  have "ConfigMapReset \<notin> set ?es"
    using configMapCalls_no_reset by auto
  then show "\<exists>es. ConfigMapReset \<notin> set es
      \<and> calls (configMapTicks q Match (clients @ [client]) v) =
          calls (configMapTicks q Match clients v) @ ConfigMapReset # es
      \<and> sink (configMapTicks q Match (clients @ [client]) v) =
          fold (applyConfigMapCall (exporter q)) es
            (ConfigMapResetMetrics (exporter q) (sink (configMapTicks q Match clients v)))"
    by (intro exI [of _ ?es]) (simp add: configMapTicks_def configMapTick_calls configMapTick_sink)
next
  assume "ConfigMapResetMetrics (exporter r) = ConfigMapExporter_ResetMetrics"
  then show "sink (configMapTicks r Match (clients @ [client]) u) =
        sink (configMapTick r Match client u')"
    by (simp add: configMapTicks_def configMapTick_sink ConfigMapExporter_ResetMetrics_empty)
qed

theorem tick_resets_before_exports_witness:
  "ConfigMapResetMetrics (exporter exampleConfigMapChecker) = ConfigMapExporter_ResetMetrics
   \<and> sink (configMapTicks exampleConfigMapChecker exampleMatch ([exampleClient] @ [exampleClient])
             (exampleWorld :: (metrics, configMapCall) world)) =
       sink (configMapTick exampleConfigMapChecker exampleMatch exampleClient
             (exampleWorld\<lparr>sink := \<lparr>ConfigMapExpirySeconds = Map.empty,
                                      ConfigMapNotAfterTimestamp = Map.empty\<rparr>\<rparr>))
   \<and> ConfigMapExpirySeconds
       (sink (configMapTick exampleConfigMapChecker exampleMatch exampleClient exampleWorld))
       [''old''] = None
   \<and> calls (secretTick exampleSecretChecker exampleMatch exampleClient exampleWorld) =
       [SecretReset,
        SecretExport ''PEM'' ''tls.crt'' ''tls-1'' ''default'' ''s3cret''
          [''serviceline'' \<mapsto> ''payments''],
        SecretExport ''junk'' ''bad.crt'' ''tls-1'' ''default'' ''full''
          [''serviceline'' \<mapsto> ''payments'']]"
proof -
  have reset: "ConfigMapResetMetrics (exporter exampleConfigMapChecker) =
      ConfigMapExporter_ResetMetrics"
    by (simp add: exampleConfigMapChecker_def)
  have gone: "ConfigMapExpirySeconds
       (sink (configMapTick exampleConfigMapChecker exampleMatch exampleClient exampleWorld))
       [''old''] = None"
    by (simp add: checker_defs example_defs)
  have log: "calls (secretTick exampleSecretChecker exampleMatch exampleClient exampleWorld) =
       [SecretReset,
        SecretExport ''PEM'' ''tls.crt'' ''tls-1'' ''default'' ''s3cret''
          [''serviceline'' \<mapsto> ''payments''],
        SecretExport ''junk'' ''bad.crt'' ''tls-1'' ''default'' ''full''
          [''serviceline'' \<mapsto> ''payments'']]"
    by (simp add: checker_defs example_defs)
  show ?thesis
    using reset gone log
      tick_resets_before_exports [where r = exampleConfigMapChecker and Match = exampleMatch
        and clients = "[exampleClient]" and client = exampleClient
        and p = exampleSecretChecker and w = exampleWorld
        and q = exampleConfigMapChecker and v = exampleWorld
        and u = exampleWorld
        and u' = "exampleWorld\<lparr>sink := \<lparr>ConfigMapExpirySeconds = Map.empty,
                                      ConfigMapNotAfterTimestamp = Map.empty\<rparr>\<rparr>"]
    by simp
qed

lemma annotationLoop_iff:
  "annotationLoop selectors annotations \<longleftrightarrow> (\<exists>s \<in> set selectors. annotations s \<noteq> None)"
  by (induction selectors) (auto split: option.splits)

text \<open>
  C3. In both checkers the annotation filter lets a resource through exactly when the
  list of annotation selectors is empty or some selector of the list is a key of the
  resource's annotations; the values of the annotations play no part, so two annotation
  maps with the same keys are filtered alike.
\<close>

theorem annotationFilter_spec:
  "(annotationFilter selectors annotations \<longleftrightarrow>
      selectors = [] \<or> (\<exists>s \<in> set selectors. s \<in> dom annotations))
   \<and> (dom annotations = dom annotations' \<longrightarrow>
      annotationFilter selectors annotations = annotationFilter selectors annotations')"
proof -
  have eq: "\<And>a. annotationFilter selectors a \<longleftrightarrow>
      selectors = [] \<or> (\<exists>s \<in> set selectors. s \<in> dom a)"
    by (auto simp: annotationFilter_def annotationLoop_iff)
  show ?thesis by (simp add: eq)
qed

theorem annotationFilter_spec_witness:
  "annotationFilter [''cert/a'', ''cert/b''] [''cert/b'' \<mapsto> ''x'']
   \<and> annotationFilter [''cert/a'', ''cert/b''] [''cert/b'' \<mapsto> '''']
   \<and> \<not> annotationFilter [''cert/a''] [''cert/b'' \<mapsto> ''cert/a'']
   \<and> annotationFilter [] [''cert/b'' \<mapsto> ''x'']"
  using annotationFilter_spec [of "[''cert/a'', ''cert/b'']" "[''cert/b'' \<mapsto> ''x'']" "[''cert/b'' \<mapsto> '''']"]
    annotationFilter_spec [of "[''cert/a'']" "[''cert/b'' \<mapsto> ''cert/a'']" "Map.empty"]
    annotationFilter_spec [of "[]" "[''cert/b'' \<mapsto> ''x'']" "Map.empty"]
  by auto






lemma secretDataEntry_ErrorTotal:
  "ErrorTotal w \<le> ErrorTotal (secretDataEntry p Match client secret entry w)"
  by (simp add: secretDataEntry_def globLoop_False ErrorTotal_Inc_def Let_def
      split: prod.splits option.splits)

lemma configMapDataEntry_ErrorTotal:
  "ErrorTotal w \<le> ErrorTotal (configMapDataEntry p Match client configMap entry w)"
  by (simp add: configMapDataEntry_def globLoop_False ErrorTotal_Inc_def Let_def
      split: prod.splits option.splits)

lemma fold_ErrorTotal:
  assumes "\<And>x w. ErrorTotal w \<le> ErrorTotal (f x w)"
  shows "ErrorTotal w \<le> ErrorTotal (fold f xs w)"
proof (induction xs arbitrary: w)
  case Nil
  show ?case by simp
next
  case (Cons x xs)
  have "ErrorTotal w \<le> ErrorTotal (f x w)" by (rule assms)
  also have "\<dots> \<le> ErrorTotal (fold f xs (f x w))" by (rule Cons.IH)
  finally show ?case by simp
qed

lemma secretStep_ErrorTotal:
  "ErrorTotal w \<le> ErrorTotal (secretStep p Match client secret w)"
  by (simp add: secretStep_def fold_ErrorTotal secretDataEntry_ErrorTotal)

lemma configMapStep_ErrorTotal:
  "ErrorTotal w \<le> ErrorTotal (configMapStep p Match client configMap w)"
  by (simp add: configMapStep_def fold_ErrorTotal configMapDataEntry_ErrorTotal)

text \<open>
  C7. Listing ends with the items of the list calls that succeeded, a failed call
  contributing none, and with the error counter raised by the number of failed calls;
  this for every (namespace, label selector) combination, whatever the others did. The
  tick then makes, after \<^verbatim>\<open>ResetMetrics\<close>, the exports of every candidate in turn: which
  calls are made does not depend on any error counted on the way, and the counter after
  the tick holds at least the failed list calls.
\<close>

theorem list_failure_does_not_abort:
  fixes p :: "'s PeriodicSecretChecker" and q :: "'t PeriodicConfigMapChecker"
  shows
  "listSecrets p client (PeriodicSecretChecker.namespaces p) ([], w) =
     (concat (map (spec_items (SecretsList client))
                (spec_combinations (PeriodicSecretChecker.namespaces p)
                   (PeriodicSecretChecker.labelSelectors p))),
      w\<lparr>ErrorTotal := ErrorTotal w +
           length (filter (spec_failed (SecretsList client))
                     (spec_combinations (PeriodicSecretChecker.namespaces p)
                        (PeriodicSecretChecker.labelSelectors p)))\<rparr>)
   \<and> calls (secretTick p Match client w) =
       calls w @ SecretReset #
       concat (map (secretCalls p Match client) (secretCandidates p client))
   \<and> ErrorTotal w +
       length (filter (spec_failed (SecretsList client))
                 (spec_combinations (PeriodicSecretChecker.namespaces p)
                    (PeriodicSecretChecker.labelSelectors p)))
       \<le> ErrorTotal (secretTick p Match client w)
   \<and> listConfigMaps q client (namespaces q) ([], v) =
     (concat (map (spec_items (ConfigMapsList client))
                (spec_combinations (namespaces q) (labelSelectors q))),
      v\<lparr>ErrorTotal := ErrorTotal v +
           length (filter (spec_failed (ConfigMapsList client))
                     (spec_combinations (namespaces q) (labelSelectors q)))\<rparr>)
   \<and> calls (configMapTick q Match client v) =
       calls v @ ConfigMapReset #
       concat (map (configMapCalls q Match client) (configMapCandidates q client))
   \<and> ErrorTotal v +
       length (filter (spec_failed (ConfigMapsList client))
                 (spec_combinations (namespaces q) (labelSelectors q)))
       \<le> ErrorTotal (configMapTick q Match client v)"
proof (intro conjI)
  show "ErrorTotal w +
       length (filter (spec_failed (SecretsList client))
                 (spec_combinations (PeriodicSecretChecker.namespaces p)
                    (PeriodicSecretChecker.labelSelectors p)))
       \<le> ErrorTotal (secretTick p Match client w)"
  proof -
    let ?l = "listSecrets p client (PeriodicSecretChecker.namespaces p)
                ([], w\<lparr>sink := SecretResetMetrics (PeriodicSecretChecker.exporter p) (sink w),
                        calls := calls w @ [SecretReset]\<rparr>)"
    have "ErrorTotal (snd ?l) \<le> ErrorTotal (fold (secretStep p Match client) (fst ?l) (snd ?l))"
      by (rule fold_ErrorTotal) (rule secretStep_ErrorTotal)
    then show ?thesis
      by (simp add: secretTick_def Let_def listSecrets_eq)
  qed
  show "ErrorTotal v +
       length (filter (spec_failed (ConfigMapsList client))
                 (spec_combinations (namespaces q) (labelSelectors q)))
       \<le> ErrorTotal (configMapTick q Match client v)"
  proof -
    let ?l = "listConfigMaps q client (namespaces q)
                ([], v\<lparr>sink := ConfigMapResetMetrics (exporter q) (sink v),
                        calls := calls v @ [ConfigMapReset]\<rparr>)"
    have "ErrorTotal (snd ?l)
          \<le> ErrorTotal (fold (configMapStep q Match client) (fst ?l) (snd ?l))"
      by (rule fold_ErrorTotal) (rule configMapStep_ErrorTotal)
    then show ?thesis
      by (simp add: configMapTick_def Let_def listConfigMaps_eq)
  qed
qed (simp_all add: listSecrets_eq listConfigMaps_eq secretTick_calls configMapTick_calls)


theorem list_failure_does_not_abort_witness:
  "spec_failed (SecretsList exampleClient) (''default'', ''app=web'')
   \<and> listSecrets (exampleSecretChecker\<lparr>PeriodicSecretChecker.labelSelectors := [''app=web'', []]\<rparr>)
        exampleClient [''default'', ''other''] ([], exampleWorld :: (metrics, secretCall) world) =
       ([exampleSecret], exampleWorld\<lparr>ErrorTotal := 3\<rparr>)
   \<and> calls (secretTick (exampleSecretChecker\<lparr>PeriodicSecretChecker.labelSelectors := [''app=web'', []]\<rparr>)
              exampleMatch exampleClient exampleWorld) =
       [SecretReset,
        SecretExport ''PEM'' ''tls.crt'' ''tls-1'' ''default'' ''s3cret''
          [''serviceline'' \<mapsto> ''payments''],
        SecretExport ''junk'' ''bad.crt'' ''tls-1'' ''default'' ''full''
          [''serviceline'' \<mapsto> ''payments'']]
   \<and> ErrorTotal (secretTick (exampleSecretChecker\<lparr>PeriodicSecretChecker.labelSelectors := [''app=web'', []]\<rparr>)
              exampleMatch exampleClient exampleWorld) = 7
   \<and> listConfigMaps exampleConfigMapChecker exampleClient [''default'', ''other'']
        ([], exampleWorld :: (metrics, configMapCall) world) =
       ([exampleConfigMap], exampleWorld\<lparr>ErrorTotal := 1\<rparr>)
   \<and> calls (configMapTick exampleConfigMapChecker exampleMatch exampleClient exampleWorld) =
       [ConfigMapReset, ConfigMapExport ''PEM'' ''ca.crt'' ''ca-bundle'' ''default'' []]"
proof -
  have total: "ErrorTotal (secretTick
      (exampleSecretChecker\<lparr>PeriodicSecretChecker.labelSelectors := [''app=web'', []]\<rparr>)
      exampleMatch exampleClient exampleWorld) = 7"
    by (simp add: checker_defs example_defs)
  show ?thesis
    using total
      list_failure_does_not_abort
        [where p = "exampleSecretChecker\<lparr>PeriodicSecretChecker.labelSelectors := [''app=web'', []]\<rparr>"
          and q = exampleConfigMapChecker and Match = exampleMatch and client = exampleClient
          and w = exampleWorld and v = exampleWorld]
    by (simp add: checker_defs example_defs spec_published_def spec_matchesAny_def
        spec_combinations_def spec_items_def spec_failed_def secretCandidates_def
        configMapCandidates_def secretCalls_def configMapCalls_def secretEntryCalls_def
        configMapEntryCalls_def)
qed

lemma ExtScan_none:
  "\<forall>c \<in> set cs. c \<noteq> CHR ''.'' \<and> c \<noteq> CHR ''/'' \<Longrightarrow> ExtScan cs acc = []"
  by (induction cs arbitrary: acc) simp_all

lemma ExtScan_dot:
  "\<forall>c \<in> set pre. c \<noteq> CHR ''.'' \<and> c \<noteq> CHR ''/'' \<Longrightarrow>
   ExtScan (pre @ CHR ''.'' # rest) acc = CHR ''.'' # rev pre @ acc"
  by (induction pre arbitrary: acc) simp_all

lemma ExtScan_slash:
  "\<forall>c \<in> set pre. c \<noteq> CHR ''.'' \<and> c \<noteq> CHR ''/'' \<Longrightarrow>
   ExtScan (pre @ CHR ''/'' # rest) acc = []"
  by (induction pre arbitrary: acc) simp_all

lemma TrimSuffix_append: "TrimSuffix (xs @ ys) ys = xs"
  by (simp add: TrimSuffix_def HasSuffix_def)

lemma TrimSuffix_Nil: "TrimSuffix xs [] = xs"
  by (simp add: TrimSuffix_def HasSuffix_def)

lemma dropWhile_all:
  "\<forall>c \<in> set pre. P c \<Longrightarrow> \<not> P x \<Longrightarrow> dropWhile P (pre @ x # rest) = x # rest"
  by (induction pre) simp_all

lemma ext_plain:
  assumes "\<forall>c \<in> set n. c \<noteq> CHR ''.'' \<and> c \<noteq> CHR ''/''"
  shows "TrimSuffix n (path_Ext n) = spec_withoutExtension n"
proof -
  have "path_Ext n = []"
    using assms by (simp add: path_Ext_def ExtScan_none)
  moreover have "dropWhile (\<lambda>c. c \<noteq> CHR ''.'' \<and> c \<noteq> CHR ''/'') (rev n) = []"
    using assms by simp
  then have "spec_withoutExtension n = n"
    unfolding spec_withoutExtension_def by (simp only: list.case)
  ultimately show ?thesis
    by (simp add: TrimSuffix_Nil)
qed

lemma ext_dot:
  assumes "\<forall>c \<in> set b. c \<noteq> CHR ''.'' \<and> c \<noteq> CHR ''/''"
  shows "TrimSuffix (a @ CHR ''.'' # b) (path_Ext (a @ CHR ''.'' # b)) =
         spec_withoutExtension (a @ CHR ''.'' # b)"
proof -
  have "path_Ext (a @ CHR ''.'' # b) = CHR ''.'' # b"
    using assms by (simp add: path_Ext_def ExtScan_dot)
  moreover have "spec_withoutExtension (a @ CHR ''.'' # b) = a"
    using assms by (simp add: spec_withoutExtension_def dropWhile_all)
  ultimately show ?thesis
    by (simp add: TrimSuffix_append)
qed

lemma ext_slash:
  assumes "\<forall>c \<in> set b. c \<noteq> CHR ''.'' \<and> c \<noteq> CHR ''/''"
  shows "TrimSuffix (a @ CHR ''/'' # b) (path_Ext (a @ CHR ''/'' # b)) =
         spec_withoutExtension (a @ CHR ''/'' # b)"
proof -
  have "path_Ext (a @ CHR ''/'' # b) = []"
    using assms by (simp add: path_Ext_def ExtScan_slash)
  moreover have "spec_withoutExtension (a @ CHR ''/'' # b) = a @ CHR ''/'' # b"
    using assms by (simp add: spec_withoutExtension_def dropWhile_all)
  ultimately show ?thesis
    by (simp add: TrimSuffix_Nil)
qed

lemma name_shape:
  "(\<forall>c \<in> set n. c \<noteq> CHR ''.'' \<and> c \<noteq> CHR ''/'')
   \<or> (\<exists>a x b. n = a @ x # b \<and> (x = CHR ''.'' \<or> x = CHR ''/'')
        \<and> (\<forall>c \<in> set b. c \<noteq> CHR ''.'' \<and> c \<noteq> CHR ''/''))"
proof (induction n)
  case Nil
  show ?case by simp
next
  case (Cons y n)
  from Cons.IH show ?case
  proof
    assume plain: "\<forall>c \<in> set n. c \<noteq> CHR ''.'' \<and> c \<noteq> CHR ''/''"
    show ?thesis
    proof (cases "y = CHR ''.'' \<or> y = CHR ''/''")
      case True
      have "y # n = [] @ y # n" by simp
      with True plain show ?thesis by blast
    next
      case False
      with plain show ?thesis by simp
    qed
  next
    assume "\<exists>a x b. n = a @ x # b \<and> (x = CHR ''.'' \<or> x = CHR ''/'')
        \<and> (\<forall>c \<in> set b. c \<noteq> CHR ''.'' \<and> c \<noteq> CHR ''/'')"
    then obtain a x b where n: "n = a @ x # b" and x: "x = CHR ''.'' \<or> x = CHR ''/''"
      and b: "\<forall>c \<in> set b. c \<noteq> CHR ''.'' \<and> c \<noteq> CHR ''/''"
      by blast
    have "y # n = (y # a) @ x # b"
      using n by simp
    with x b show ?thesis by blast
  qed
qed

lemma TrimSuffix_path_Ext: "TrimSuffix name (path_Ext name) = spec_withoutExtension name"
proof -
  from name_shape [of name] show ?thesis
  proof (elim disjE exE conjE)
    assume "\<forall>c \<in> set name. c \<noteq> CHR ''.'' \<and> c \<noteq> CHR ''/''"
    then show ?thesis by (rule ext_plain)
  next
    fix a x b
    assume n: "name = a @ x # b" and x: "x = CHR ''.''"
      and b: "\<forall>c \<in> set b. c \<noteq> CHR ''.'' \<and> c \<noteq> CHR ''/''"
    have "TrimSuffix (a @ CHR ''.'' # b) (path_Ext (a @ CHR ''.'' # b)) =
         spec_withoutExtension (a @ CHR ''.'' # b)"
      using b by (rule ext_dot)
    then show ?thesis by (simp only: n x)
  next
    fix a x b
    assume n: "name = a @ x # b" and x: "x = CHR ''/''"
      and b: "\<forall>c \<in> set b. c \<noteq> CHR ''.'' \<and> c \<noteq> CHR ''/''"
    have "TrimSuffix (a @ CHR ''/'' # b) (path_Ext (a @ CHR ''/'' # b)) =
         spec_withoutExtension (a @ CHR ''/'' # b)"
      using b by (rule ext_slash)
    then show ?thesis by (simp only: n x)
  qed
qed

lemma fst_getPasswordFromSecret:
  "fst (getPasswordFromSecret client ns secretName key) = spec_lookup client ns secretName key"
  by (simp add: getPasswordFromSecret_def spec_lookup_def split: sum.splits option.splits)

lemma secretPassword_eq:
  "secretPassword client secret name =
     spec_firstNonEmpty
       [spec_lookup client (Namespace secret) (Name secret) ''password'',
        spec_lookup client (Namespace secret) (Name secret @ ''-password'')
          (spec_withoutExtension name @ ''.password''),
        spec_lookup client (Namespace secret) (Name secret @ ''-password'')
          (name @ ''.password'')]"
  by (simp add: secretPassword_def Let_def fst_getPasswordFromSecret TrimSuffix_path_Ext)

lemma configMapPassword_eq:
  "configMapPassword client configMap name =
     spec_firstNonEmpty
       [spec_lookup client (Namespace configMap) (Name configMap @ ''-password'')
          (spec_withoutExtension name @ ''.password''),
        spec_lookup client (Namespace configMap) (Name configMap @ ''-password'')
          (name @ ''.password'')]"
  by (simp add: configMapPassword_def Let_def fst_getPasswordFromSecret TrimSuffix_path_Ext)


text \<open>
  C4. The password of a published Secret entry is the first non-empty result of three
  lookups, in this order: key \<^verbatim>\<open>password\<close> in the Secret of the same namespace and name,
  key \<^verbatim>\<open><name without extension>.password\<close> in the Secret \<^verbatim>\<open><resource name>-password\<close>,
  key \<^verbatim>\<open><name>.password\<close> in that Secret; a lookup that fails gives the empty string,
  and so does the resolution when all three do. For a ConfigMap entry only the second
  and third lookups are made. That password is the one in the call of
  \<^verbatim>\<open>ExportMetrics\<close>.
\<close>

theorem password_resolution:
  fixes p :: "'s PeriodicSecretChecker" and q :: "'t PeriodicConfigMapChecker"
  shows
  "secretPassword client secret name =
     spec_firstNonEmpty
       [spec_lookup client (Namespace secret) (Name secret) ''password'',
        spec_lookup client (Namespace secret) (Name secret @ ''-password'')
          (spec_withoutExtension name @ ''.password''),
        spec_lookup client (Namespace secret) (Name secret @ ''-password'')
          (name @ ''.password'')]
   \<and> configMapPassword client configMap name =
     spec_firstNonEmpty
       [spec_lookup client (Namespace configMap) (Name configMap @ ''-password'')
          (spec_withoutExtension name @ ''.password''),
        spec_lookup client (Namespace configMap) (Name configMap @ ''-password'')
          (name @ ''.password'')]
   \<and> (spec_published Match (includeSecretsDataGlobs p) (excludeSecretsDataGlobs p) name \<longrightarrow>
        calls (secretDataEntry p Match client secret (name, bytes) w) =
          calls w @ [SecretExport bytes name (Name secret) (Namespace secret)
                       (secretPassword client secret name) (Labels secret)])
   \<and> (spec_published Match (includeConfigMapsDataGlobs q) (excludeConfigMapsDataGlobs q) name \<longrightarrow>
        calls (configMapDataEntry q Match client configMap (name, bytes) v) =
          calls v @ [ConfigMapExport bytes name (Name configMap) (Namespace configMap)
                       (configMapPassword client configMap name)])"
proof (intro conjI)
  show "secretPassword client secret name =
     spec_firstNonEmpty
       [spec_lookup client (Namespace secret) (Name secret) ''password'',
        spec_lookup client (Namespace secret) (Name secret @ ''-password'')
          (spec_withoutExtension name @ ''.password''),
        spec_lookup client (Namespace secret) (Name secret @ ''-password'')
          (name @ ''.password'')]"
    by (rule secretPassword_eq)
  show "configMapPassword client configMap name =
     spec_firstNonEmpty
       [spec_lookup client (Namespace configMap) (Name configMap @ ''-password'')
          (spec_withoutExtension name @ ''.password''),
        spec_lookup client (Namespace configMap) (Name configMap @ ''-password'')
          (name @ ''.password'')]"
    by (rule configMapPassword_eq)
qed (simp_all add: secretDataEntry_calls configMapDataEntry_calls secretEntryCalls_def
      configMapEntryCalls_def)

theorem password_resolution_witness:
  "spec_published exampleMatch (includeSecretsDataGlobs exampleSecretChecker)
     (excludeSecretsDataGlobs exampleSecretChecker) ''tls.crt''
   \<and> calls (secretDataEntry exampleSecretChecker exampleMatch exampleClient exampleSecret
              (''tls.crt'', ''PEM'') exampleWorld) =
       [SecretExport ''PEM'' ''tls.crt'' ''tls-1'' ''default'' ''s3cret''
          [''serviceline'' \<mapsto> ''payments'']]
   \<and> secretPassword exampleClient exampleSecret ''bad.crt'' = ''full''
   \<and> secretPassword exampleClient exampleSecret ''config.txt'' = []
   \<and> spec_withoutExtension ''tls.crt'' = ''tls''
   \<and> spec_published exampleMatch (includeConfigMapsDataGlobs exampleConfigMapChecker)
     (excludeConfigMapsDataGlobs exampleConfigMapChecker) ''ca.crt''
   \<and> calls (configMapDataEntry exampleConfigMapChecker exampleMatch exampleClient
              (exampleConfigMap\<lparr>Name := ''tls-1''\<rparr>) (''ca.crt'', ''PEM'') exampleWorld) =
       [ConfigMapExport ''PEM'' ''ca.crt'' ''tls-1'' ''default'' []]
   \<and> configMapPassword exampleClient (exampleConfigMap\<lparr>Name := ''tls-1''\<rparr>) ''tls.crt'' =
       ''s3cret''"
proof -
  have a: "spec_published exampleMatch (includeSecretsDataGlobs exampleSecretChecker)
     (excludeSecretsDataGlobs exampleSecretChecker) ''tls.crt''"
    by (simp add: spec_published_def spec_matchesAny_def exampleMatch_def
        exampleSecretChecker_def HasSuffix_def)
  have b: "spec_published exampleMatch (includeConfigMapsDataGlobs exampleConfigMapChecker)
     (excludeConfigMapsDataGlobs exampleConfigMapChecker) ''ca.crt''"
    by (simp add: spec_published_def spec_matchesAny_def exampleMatch_def
        exampleConfigMapChecker_def HasSuffix_def)
  have c: "spec_withoutExtension ''tls.crt'' = ''tls''"
    by (simp add: spec_withoutExtension_def)
  have d: "secretPassword exampleClient exampleSecret ''tls.crt'' = ''s3cret''"
    "secretPassword exampleClient exampleSecret ''bad.crt'' = ''full''"
    "secretPassword exampleClient exampleSecret ''config.txt'' = []"
    "configMapPassword exampleClient (exampleConfigMap\<lparr>Name := ''tls-1''\<rparr>) ''ca.crt'' = []"
    "configMapPassword exampleClient (exampleConfigMap\<lparr>Name := ''tls-1''\<rparr>) ''tls.crt'' =
       ''s3cret''"
    by (simp_all add: checker_defs example_defs)
  show ?thesis
    using a b c d
      password_resolution [where p = exampleSecretChecker and q = exampleConfigMapChecker
        and Match = exampleMatch and client = exampleClient and secret = exampleSecret
        and configMap = "exampleConfigMap\<lparr>Name := ''tls-1''\<rparr>" and name = "''tls.crt''"
        and bytes = "''PEM''" and w = exampleWorld and v = exampleWorld]
      password_resolution [where p = exampleSecretChecker and q = exampleConfigMapChecker
        and Match = exampleMatch and client = exampleClient and secret = exampleSecret
        and configMap = "exampleConfigMap\<lparr>Name := ''tls-1''\<rparr>" and name = "''ca.crt''"
        and bytes = "''PEM''" and w = exampleWorld and v = exampleWorld]
    by (simp add: exampleSecret_def exampleConfigMap_def exampleWorld_def)
qed

text \<open>
  C10. \<^verbatim>\<open>getPasswordFromSecret\<close> returns the empty string whenever it returns an error.
  When the key \<^verbatim>\<open>password\<close> of the Secret is present with empty bytes, the first lookup
  returns the empty string with no error, and the password resolved is the one resolved
  when the key is missing, the Secret \<^verbatim>\<open><resource name>-password\<close> being the same: the
  result of the two lookups in that Secret.
\<close>

theorem empty_password_is_missing:
  "(snd (getPasswordFromSecret client ns secretName key) \<noteq> None \<longrightarrow>
      fst (getPasswordFromSecret client ns secretName key) = [])
   \<and> (SecretsGet client (Namespace secret) (Name secret) = Inr present
      \<and> map_of (Data present) ''password'' = Some []
      \<and> SecretsGet client' (Namespace secret) (Name secret) = Inr missing
      \<and> map_of (Data missing) ''password'' = None
      \<and> SecretsGet client' (Namespace secret) (Name secret @ ''-password'') =
          SecretsGet client (Namespace secret) (Name secret @ ''-password'') \<longrightarrow>
      getPasswordFromSecret client (Namespace secret) (Name secret) ''password'' = ([], None)
      \<and> fst (getPasswordFromSecret client' (Namespace secret) (Name secret) ''password'') = []
      \<and> secretPassword client secret name = secretPassword client' secret name
      \<and> secretPassword client secret name =
          spec_firstNonEmpty
            [spec_lookup client (Namespace secret) (Name secret @ ''-password'')
               (spec_withoutExtension name @ ''.password''),
             spec_lookup client (Namespace secret) (Name secret @ ''-password'')
               (name @ ''.password'')])"
proof (intro conjI impI; (elim conjE)?)
  show "snd (getPasswordFromSecret client ns secretName key) \<noteq> None \<Longrightarrow>
      fst (getPasswordFromSecret client ns secretName key) = []"
    by (simp add: getPasswordFromSecret_def split: sum.splits option.splits)
next
  assume h: "SecretsGet client (Namespace secret) (Name secret) = Inr present"
    "map_of (Data present) ''password'' = Some []"
    "SecretsGet client' (Namespace secret) (Name secret) = Inr missing"
    "map_of (Data missing) ''password'' = None"
    "SecretsGet client' (Namespace secret) (Name secret @ ''-password'') =
          SecretsGet client (Namespace secret) (Name secret @ ''-password'')"
  show one: "getPasswordFromSecret client (Namespace secret) (Name secret) ''password'' = ([], None)"
    using h by (simp add: getPasswordFromSecret_def)
  show two: "fst (getPasswordFromSecret client' (Namespace secret) (Name secret) ''password'') = []"
    using h by (simp add: getPasswordFromSecret_def)
  have sib: "getPasswordFromSecret client' (Namespace secret) (Name secret @ ''-password'') k =
      getPasswordFromSecret client (Namespace secret) (Name secret @ ''-password'') k" for k
    using h(5) by (simp add: getPasswordFromSecret_def)
  show "secretPassword client secret name = secretPassword client' secret name"
    by (simp add: secretPassword_def Let_def one two sib)
  have "spec_lookup client (Namespace secret) (Name secret) ''password'' = []"
    using h by (simp add: spec_lookup_def)
  then show "secretPassword client secret name =
          spec_firstNonEmpty
            [spec_lookup client (Namespace secret) (Name secret @ ''-password'')
               (spec_withoutExtension name @ ''.password''),
             spec_lookup client (Namespace secret) (Name secret @ ''-password'')
               (name @ ''.password'')]"
    by (simp add: secretPassword_eq)
qed

theorem empty_password_is_missing_witness:
  "SecretsGet (exampleClient\<lparr>SecretsGet := (\<lambda>ns name.
       if name = ''tls-1'' then Inr (exampleSecret\<lparr>Data := [(''password'', [])]\<rparr>)
       else SecretsGet exampleClient ns name)\<rparr>) (Namespace exampleSecret) (Name exampleSecret) =
     Inr (exampleSecret\<lparr>Data := [(''password'', [])]\<rparr>)
   \<and> map_of (Data (exampleSecret\<lparr>Data := [(''password'', [])]\<rparr>)) ''password'' = Some []
   \<and> SecretsGet exampleClient (Namespace exampleSecret) (Name exampleSecret) = Inr exampleSecret
   \<and> map_of (Data exampleSecret) ''password'' = None
   \<and> secretPassword (exampleClient\<lparr>SecretsGet := (\<lambda>ns name.
       if name = ''tls-1'' then Inr (exampleSecret\<lparr>Data := [(''password'', [])]\<rparr>)
       else SecretsGet exampleClient ns name)\<rparr>) exampleSecret ''tls.crt'' =
      secretPassword exampleClient exampleSecret ''tls.crt''
   \<and> secretPassword exampleClient exampleSecret ''tls.crt'' = ''s3cret''"
proof -
  have v: "secretPassword exampleClient exampleSecret ''tls.crt'' = ''s3cret''"
    by (simp add: checker_defs example_defs)
  show ?thesis
    using v empty_password_is_missing
      [where client = "exampleClient\<lparr>SecretsGet := (\<lambda>ns name.
         if name = ''tls-1'' then Inr (exampleSecret\<lparr>Data := [(''password'', [])]\<rparr>)
         else SecretsGet exampleClient ns name)\<rparr>"
        and client' = exampleClient and secret = exampleSecret
        and present = "exampleSecret\<lparr>Data := [(''password'', [])]\<rparr>"
        and missing = exampleSecret and name = "''tls.crt''"
        and ns = "''default''" and secretName = "''none''" and key = "''k''"]
    by (simp add: exampleClient_def exampleSecret_def)
qed

lemma fold_update_map_of:
  "distinct (map fst xs) \<Longrightarrow>
   map_of (fold (\<lambda>(key, value) m. AList.update key value m) xs m) = map_of m ++ map_of xs"
proof (induction xs arbitrary: m)
  case Nil
  show ?case by simp
next
  case (Cons x xs)
  obtain k v where x: "x = (k, v)" by (cases x)
  from Cons.prems x have k: "k \<notin> dom (map_of xs)" and d: "distinct (map fst xs)"
    by (auto simp: dom_map_of_conv_image_fst)
  have "map_of (fold (\<lambda>(key, value) m. AList.update key value m) (x # xs) m) =
        map_of (AList.update k v m) ++ map_of xs"
    using Cons.IH [OF d] x by simp
  also have "\<dots> = (map_of m)(k \<mapsto> v) ++ map_of xs"
    by (simp add: update_conv')
  also have "\<dots> = (map_of m ++ map_of xs)(k \<mapsto> v)"
    using k by (rule map_add_upd_left)
  also have "\<dots> = map_of m ++ map_of (x # xs)"
    using x by simp
  finally show ?case .
qed

lemma fold_update_distinct:
  "distinct (map fst m) \<Longrightarrow>
   distinct (map fst (fold (\<lambda>(key, value) m. AList.update key value m) xs m))"
  by (induction xs arbitrary: m) (auto simp: distinct_update)

text \<open>
  C6. The entries a ConfigMap checker visits are those of \<^verbatim>\<open>combinedMap\<close>, the text
  entries overwritten by the binary entries: for two Go maps (no key twice) the merged
  map is the text map overridden by the binary map, it has no key twice, and a key of
  both maps has its binary value.
\<close>

theorem combinedMap_binary_overwrites:
  "distinct (map fst (TextData configMap)) \<and> distinct (map fst (BinaryData configMap)) \<longrightarrow>
     map_of (combinedMap configMap) =
       map_of (TextData configMap) ++ map_of (BinaryData configMap)
     \<and> distinct (map fst (combinedMap configMap))
     \<and> (\<forall>key text binary.
          map_of (TextData configMap) key = Some text
          \<and> map_of (BinaryData configMap) key = Some binary \<longrightarrow>
          map_of (combinedMap configMap) key = Some binary)"
proof (intro impI, elim conjE)
  assume t: "distinct (map fst (TextData configMap))"
    and b: "distinct (map fst (BinaryData configMap))"
  have m: "map_of (combinedMap configMap) =
       map_of (TextData configMap) ++ map_of (BinaryData configMap)"
    by (simp add: combinedMap_def fold_update_map_of [OF b] fold_update_map_of [OF t])
  have d: "distinct (map fst (combinedMap configMap))"
    by (simp add: combinedMap_def fold_update_distinct)
  from m d show "map_of (combinedMap configMap) =
       map_of (TextData configMap) ++ map_of (BinaryData configMap)
     \<and> distinct (map fst (combinedMap configMap))
     \<and> (\<forall>key text binary.
          map_of (TextData configMap) key = Some text
          \<and> map_of (BinaryData configMap) key = Some binary \<longrightarrow>
          map_of (combinedMap configMap) key = Some binary)"
    by simp
qed

theorem combinedMap_binary_overwrites_witness:
  "distinct (map fst (TextData exampleConfigMap))
   \<and> distinct (map fst (BinaryData exampleConfigMap))
   \<and> map_of (TextData exampleConfigMap) ''ca.crt'' = Some ''text''
   \<and> map_of (BinaryData exampleConfigMap) ''ca.crt'' = Some ''PEM''
   \<and> map_of (combinedMap exampleConfigMap) ''ca.crt'' = Some ''PEM''
   \<and> combinedMap exampleConfigMap = [(''ca.crt'', ''PEM''), (''notes.txt'', ''hello'')]"
proof -
  have c: "combinedMap exampleConfigMap = [(''ca.crt'', ''PEM''), (''notes.txt'', ''hello'')]"
    by (simp add: combinedMap_def exampleConfigMap_def)
  show ?thesis
    using c combinedMap_binary_overwrites [of exampleConfigMap]
    by (simp add: exampleConfigMap_def)
qed

lemma fold_setMetric_expiry:
  "ConfigMapExpirySeconds (fold (setMetric k n ns sl) mc m) =
     ConfigMapExpirySeconds m ++
     map_of (rev (map (\<lambda>x. ([k, issuer x, cn x, n, ns, sl], durationUntilExpiry x)) mc))"
  by (induction mc arbitrary: m) (simp_all add: setMetric_def GaugeVec_Set_def)

lemma fold_setMetric_notAfter:
  "ConfigMapNotAfterTimestamp (fold (setMetric k n ns sl) mc m) =
     ConfigMapNotAfterTimestamp m ++
     map_of (rev (map (\<lambda>x. ([k, issuer x, cn x, n, ns, sl], notAfter x)) mc))"
  by (induction mc arbitrary: m) (simp_all add: setMetric_def GaugeVec_Set_def)


lemma override_assoc: "override (override a b) c = override a (override b c)"
  by (simp add: override_def)









lemma map_of_rev_distinct:
  "distinct (map fst xs) \<Longrightarrow> (k, v) \<in> set xs \<Longrightarrow> map_of (rev xs) k = Some v"
  by (rule map_of_is_SomeI) (simp_all add: rev_map [symmetric])

text \<open>
  C8. \<^verbatim>\<open>ExportMetrics\<close> returns an error exactly when the decoder does, the decoder's
  error, and then leaves the families as they were. When the decoder succeeds it returns
  no error and sets, for every decoded certificate in turn, one value in each of the two
  families at the certificate's label values: the seconds until expiry in one, the
  not-after time in the other, and nothing else. When no two decoded certificates have
  the same issuer and common name, every one of them has its own two values afterwards.
\<close>

theorem ExportMetrics_error_iff:
  "(fst (ConfigMapExporter_ExportMetrics dec bytes k n ns pw labels m) \<noteq> None
      \<longleftrightarrow> isl (dec bytes pw))
   \<and> (\<forall>err. dec bytes pw = Inl err \<longrightarrow>
        ConfigMapExporter_ExportMetrics dec bytes k n ns pw labels m = (Some err, m))
   \<and> (\<forall>mc. dec bytes pw = Inr mc \<longrightarrow>
        fst (ConfigMapExporter_ExportMetrics dec bytes k n ns pw labels m) = None
        \<and> ConfigMapExpirySeconds
            (snd (ConfigMapExporter_ExportMetrics dec bytes k n ns pw labels m)) =
          ConfigMapExpirySeconds m ++
          map_of (rev (map (\<lambda>x. ([k, issuer x, cn x, n, ns, index_string labels ''serviceline''],
                                  durationUntilExpiry x)) mc))
        \<and> ConfigMapNotAfterTimestamp
            (snd (ConfigMapExporter_ExportMetrics dec bytes k n ns pw labels m)) =
          ConfigMapNotAfterTimestamp m ++
          map_of (rev (map (\<lambda>x. ([k, issuer x, cn x, n, ns, index_string labels ''serviceline''],
                                  notAfter x)) mc))
        \<and> (distinct (map (\<lambda>x. (issuer x, cn x)) mc) \<longrightarrow>
            (\<forall>x \<in> set mc.
               ConfigMapExpirySeconds
                 (snd (ConfigMapExporter_ExportMetrics dec bytes k n ns pw labels m))
                 [k, issuer x, cn x, n, ns, index_string labels ''serviceline''] =
                 Some (durationUntilExpiry x)
               \<and> ConfigMapNotAfterTimestamp
                 (snd (ConfigMapExporter_ExportMetrics dec bytes k n ns pw labels m))
                 [k, issuer x, cn x, n, ns, index_string labels ''serviceline''] =
                 Some (notAfter x))))"
proof (intro conjI allI impI ballI)
  show "(fst (ConfigMapExporter_ExportMetrics dec bytes k n ns pw labels m) \<noteq> None)
      = isl (dec bytes pw)"
    by (cases "dec bytes pw") (simp_all add: ConfigMapExporter_ExportMetrics_def)
next
  fix err assume "dec bytes pw = Inl err"
  then show "ConfigMapExporter_ExportMetrics dec bytes k n ns pw labels m = (Some err, m)"
    by (simp add: ConfigMapExporter_ExportMetrics_def)
next
  fix mc assume mc: "dec bytes pw = Inr mc"
  let ?sl = "index_string labels ''serviceline''"
  let ?key = "\<lambda>x. [k, issuer x, cn x, n, ns, ?sl]"
  show "fst (ConfigMapExporter_ExportMetrics dec bytes k n ns pw labels m) = None"
    using mc by (simp add: ConfigMapExporter_ExportMetrics_def)
  show e: "ConfigMapExpirySeconds
            (snd (ConfigMapExporter_ExportMetrics dec bytes k n ns pw labels m)) =
          ConfigMapExpirySeconds m ++
          map_of (rev (map (\<lambda>x. (?key x, durationUntilExpiry x)) mc))"
    using mc by (simp add: ConfigMapExporter_ExportMetrics_def fold_setMetric_expiry)
  show a: "ConfigMapNotAfterTimestamp
            (snd (ConfigMapExporter_ExportMetrics dec bytes k n ns pw labels m)) =
          ConfigMapNotAfterTimestamp m ++
          map_of (rev (map (\<lambda>x. (?key x, notAfter x)) mc))"
    using mc by (simp add: ConfigMapExporter_ExportMetrics_def fold_setMetric_notAfter)
  fix x assume d: "distinct (map (\<lambda>x. (issuer x, cn x)) mc)" and x: "x \<in> set mc"
  have inj: "inj_on ?key (set mc)"
  proof (rule inj_onI)
    fix y z assume "y \<in> set mc" "z \<in> set mc" "?key y = ?key z"
    then have "(issuer y, cn y) = (issuer z, cn z)" by simp
    moreover from d have "inj_on (\<lambda>x. (issuer x, cn x)) (set mc)"
      by (simp add: distinct_map)
    ultimately show "y = z"
      using \<open>y \<in> set mc\<close> \<open>z \<in> set mc\<close> by (auto dest: inj_onD)
  qed
  from d have dm: "distinct mc"
    by (simp add: distinct_map)
  have dk: "distinct (map ?key mc)"
    using dm inj by (simp add: distinct_map)
  have "map_of (rev (map (\<lambda>x. (?key x, durationUntilExpiry x)) mc)) (?key x) =
      Some (durationUntilExpiry x)"
    using dk x by (intro map_of_rev_distinct) (simp_all add: comp_def)
  then show "ConfigMapExpirySeconds
                 (snd (ConfigMapExporter_ExportMetrics dec bytes k n ns pw labels m))
                 (?key x) = Some (durationUntilExpiry x)"
    by (simp add: e)
  have "map_of (rev (map (\<lambda>x. (?key x, notAfter x)) mc)) (?key x) = Some (notAfter x)"
    using dk x by (intro map_of_rev_distinct) (simp_all add: comp_def)
  then show "ConfigMapNotAfterTimestamp
                 (snd (ConfigMapExporter_ExportMetrics dec bytes k n ns pw labels m))
                 (?key x) = Some (notAfter x)"
    by (simp add: a)
qed


theorem ExportMetrics_error_iff_witness:
  "exampleDecoder ''junk'' ''full'' = Inl (Error ''failed to parse as pem and pkcs12'')
   \<and> ConfigMapExporter_ExportMetrics exampleDecoder ''junk'' ''bad.crt'' ''tls-1'' ''default''
        ''full'' [''serviceline'' \<mapsto> ''payments''] emptyMetrics =
       (Some (Error ''failed to parse as pem and pkcs12''), emptyMetrics)
   \<and> exampleDecoder ''PEM'' ''s3cret'' =
       Inr [\<lparr>durationUntilExpiry = 86400, notAfter = 1700000000,
              issuer = ''ca'', cn = ''example.org''\<rparr>]
   \<and> distinct (map (\<lambda>x. (issuer x, cn x))
        [\<lparr>durationUntilExpiry = 86400, notAfter = 1700000000,
          issuer = ''ca'', cn = ''example.org''\<rparr>])
   \<and> fst (ConfigMapExporter_ExportMetrics exampleDecoder ''PEM'' ''tls.crt'' ''tls-1'' ''default''
        ''s3cret'' [''serviceline'' \<mapsto> ''payments''] emptyMetrics) = None
   \<and> ConfigMapExpirySeconds
       (snd (ConfigMapExporter_ExportMetrics exampleDecoder ''PEM'' ''tls.crt'' ''tls-1''
               ''default'' ''s3cret'' [''serviceline'' \<mapsto> ''payments''] emptyMetrics))
       [''tls.crt'', ''ca'', ''example.org'', ''tls-1'', ''default'', ''payments''] = Some 86400
   \<and> ConfigMapNotAfterTimestamp
       (snd (ConfigMapExporter_ExportMetrics exampleDecoder ''PEM'' ''tls.crt'' ''tls-1''
               ''default'' ''s3cret'' [''serviceline'' \<mapsto> ''payments''] emptyMetrics))
       [''tls.crt'', ''ca'', ''example.org'', ''tls-1'', ''default'', ''payments''] =
       Some 1700000000"
  using
    ExportMetrics_error_iff [where dec = exampleDecoder and bytes = "''junk''"
      and k = "''bad.crt''" and n = "''tls-1''" and ns = "''default''" and pw = "''full''"
      and labels = "[''serviceline'' \<mapsto> ''payments'']" and m = emptyMetrics]
    ExportMetrics_error_iff [where dec = exampleDecoder and bytes = "''PEM''"
      and k = "''tls.crt''" and n = "''tls-1''" and ns = "''default''" and pw = "''s3cret''"
      and labels = "[''serviceline'' \<mapsto> ''payments'']" and m = emptyMetrics]
  by (simp add: exampleDecoder_def index_string_def)















end
